theory Spec2Isabelle
  imports Complex_Main
begin

section \<open>Python exceptions\<close>

text \<open>
  Every exception the modelled code can raise is a value. \<open>TorchError\<close> stands for the
  errors raised inside the tensor library (RuntimeError or IndexError on a shape or an
  index that the operation rejects), \<open>OSError\<close> for a file that cannot be read.
\<close>

datatype exn =
    ValueError
  | AssertionError
  | AttributeError
  | TypeError
  | KeyError
  | UnboundLocalError
  | StopIteration
  | KeyboardInterrupt
  | OSError
  | ZeroDivisionError
  | TorchError

section \<open>models/layers.py: SeqPoolingLayer\<close>

text \<open>
  Tensors are nested lists, outermost dimension first. Entries are real numbers: the
  arithmetic of the layer (a product, a sum, a quotient, a maximum) is read over the
  reals, without rounding. The model covers a 3-D batch \<open>[N, L, D]\<close> with the documented
  argument shapes: \<open>seq_len\<close> of shape \<open>[N]\<close>, \<open>weight\<close> and \<open>mask_token\<close> of shape
  \<open>[N, L]\<close>; another shape is answered with \<open>TorchError\<close>. A nested list has no room
  for the sizes of the dimensions under an empty one; they are read as 0.
\<close>

record SeqPoolingLayer =
  pooling_type :: string
  keepdim :: bool

definition SeqPoolingLayer_init :: "string \<Rightarrow> bool \<Rightarrow> exn + SeqPoolingLayer" where
  "SeqPoolingLayer_init pt kd =
     (if \<not> pt \<in> set [''origin'', ''mask'', ''concat'', ''sum'', ''mean'', ''max'', ''last'']
      then Inl ValueError
      else Inr \<lparr>pooling_type = pt, keepdim = kd\<rparr>)"

text \<open>
  What \<open>forward\<close> returns: a 2-D tensor, a 3-D tensor, the pair \<open>(values, indices)\<close>
  that \<open>Tensor.max(dim=1)\<close> returns, or a tensor with entries that are not finite
  (a division by a zero length), which the reals do not represent.
\<close>

datatype pooled =
    T2 "real list list"
  | T3 "real list list list"
  | MaxResult "real list list" "nat list list"
  | NonFinite

definition size1 :: "'a list list \<Rightarrow> nat" where
  "size1 x = (case x of [] \<Rightarrow> 0 | r # _ \<Rightarrow> length r)"

definition size2 :: "'a list list list \<Rightarrow> nat" where
  "size2 x = (case x of (v # _) # _ \<Rightarrow> length v | _ \<Rightarrow> 0)"

definition has_shape2 :: "nat \<Rightarrow> nat \<Rightarrow> 'a list list \<Rightarrow> bool" where
  "has_shape2 N L x = (length x = N \<and> list_all (\<lambda>r. length r = L) x)"

definition has_shape3 :: "nat \<Rightarrow> nat \<Rightarrow> nat \<Rightarrow> 'a list list list \<Rightarrow> bool" where
  "has_shape3 N L D x = (length x = N \<and> list_all (has_shape2 L D) x)"

definition arange :: "nat \<Rightarrow> int list" where
  "arange n = map int [0..<n]"

text \<open>\<open>weight.unsqueeze(-1) * batch_seq_embeddings\<close>\<close>

definition apply_weight :: "real list list \<Rightarrow> real list list list \<Rightarrow> real list list list" where
  "apply_weight w x = map2 (map2 (\<lambda>c v. map (\<lambda>e. c * e) v)) w x"

text \<open>
  Lines 37 to 41: position \<open>l\<close> of sequence \<open>n\<close> is masked when \<open>l >= seq_len[n]\<close>,
  in every one of its \<open>D\<close> components.
\<close>

definition seq_mask :: "nat \<Rightarrow> nat \<Rightarrow> int list \<Rightarrow> bool list list list" where
  "seq_mask L D seq_len = map (\<lambda>s. map (\<lambda>l. replicate D (l \<ge> s)) (arange L)) seq_len"

definition masked_fill :: "real list list list \<Rightarrow> bool list list list \<Rightarrow> real \<Rightarrow> real list list list" where
  "masked_fill x msk c = map2 (map2 (map2 (\<lambda>e m. if m then c else e))) x msk"

text \<open>\<open>x.sum(dim=1)\<close> on one sequence: the sum of its \<open>L\<close> vectors of size \<open>D\<close>.\<close>

definition sum_dim1 :: "nat \<Rightarrow> real list list \<Rightarrow> real list" where
  "sum_dim1 D row = foldr (map2 (+)) row (replicate D 0)"

fun list_max :: "real \<Rightarrow> real list \<Rightarrow> real" where
  "list_max m [] = m"
| "list_max m (y # ys) = list_max (max m y) ys"

text \<open>
  \<open>x.max(dim=1)\<close> on one sequence: the maxima of the \<open>D\<close> components over the
  \<open>L\<close> positions and the positions where they are. The library leaves the position
  open when the maximum occurs twice; the model takes the first.
\<close>

definition column :: "real list list \<Rightarrow> nat \<Rightarrow> real list" where
  "column row d = map (\<lambda>v. v ! d) row"

definition max_values :: "nat \<Rightarrow> real list list \<Rightarrow> real list" where
  "max_values D row =
     map (\<lambda>d. case column row d of [] \<Rightarrow> 0 | c # cs \<Rightarrow> list_max c cs) [0..<D]"

definition max_indices :: "nat \<Rightarrow> real list list \<Rightarrow> nat list" where
  "max_indices D row =
     map (\<lambda>d. case column row d of [] \<Rightarrow> 0
               | c # cs \<Rightarrow> length (takeWhile (\<lambda>e. e \<noteq> list_max c cs) (c # cs))) [0..<D]"

text \<open>\<open>x[mask_token]\<close> with a boolean mask \<open>[N, L]\<close>: the selected vectors, in order.\<close>

definition bool_index :: "real list list list \<Rightarrow> bool list list \<Rightarrow> real list list" where
  "bool_index x mt = concat (map2 (\<lambda>row m. map fst (filter snd (zip row m))) x mt)"

text \<open>\<open>torch.finfo(torch.float32).eps\<close>\<close>

definition float32_eps :: real where
  "float32_eps = 1 / 2 ^ 23"

text \<open>
  \<open>SeqPoolingLayer.forward\<close> on a 3-D batch. The branches follow the source:
  the optional weighting (line 29), \<open>'mask'\<close> (lines 31 to 35), the masked
  reductions (lines 36 to 62), \<open>'last'\<close> (lines 64 to 68). A layer whose
  \<open>pooling_type\<close> is none of the seven names reaches line 73 with \<open>result\<close> unbound.
  The library rejects \<open>reshape(N, -1)\<close> of an empty batch and a maximum over no
  position.
\<close>

definition forward ::
  "SeqPoolingLayer \<Rightarrow> real list list list \<Rightarrow> int list \<Rightarrow> real list list option
     \<Rightarrow> bool list list option \<Rightarrow> exn + pooled" where
  "forward self batch_seq_embeddings0 seq_len weight mask_token =
    (let N = length batch_seq_embeddings0;
         L = size1 batch_seq_embeddings0;
         D = size2 batch_seq_embeddings0
     in
     if (case weight of None \<Rightarrow> False | Some w \<Rightarrow> \<not> has_shape2 N L w) then Inl TorchError
     else
     let batch_seq_embeddings =
           (case weight of None \<Rightarrow> batch_seq_embeddings0
            | Some w \<Rightarrow> apply_weight w batch_seq_embeddings0)
     in
     if pooling_type self = ''mask'' then
       (case mask_token of
          None \<Rightarrow> Inl AssertionError
        | Some mt \<Rightarrow>
            if \<not> has_shape2 N L mt then Inl TorchError
            else Inr (T2 (bool_index batch_seq_embeddings mt)))
     else if pooling_type self \<in> set [''origin'', ''concat'', ''mean'', ''sum'', ''max''] then
       (if length seq_len \<noteq> N then Inl TorchError
        else
        let msk = seq_mask L D seq_len;
            batch_seq_embeddings = masked_fill batch_seq_embeddings msk 0
        in
        if pooling_type self = ''origin'' then Inr (T3 batch_seq_embeddings)
        else if pooling_type self \<in> set [''concat'', ''max''] then
          (if \<not> keepdim self then
             (if pooling_type self = ''concat''
              then (if N = 0 then Inl TorchError
                    else Inr (T2 (map concat batch_seq_embeddings)))
              else if L = 0 \<and> 0 < N then Inl TorchError
              else Inr (MaxResult (map (max_values D) batch_seq_embeddings)
                                  (map (max_indices D) batch_seq_embeddings)))
           else
             (if pooling_type self = ''concat''
              then (if N = 0 then Inl TorchError
                    else Inr (T3 (map (\<lambda>r. [concat r]) batch_seq_embeddings)))
              else if L = 0 \<and> 0 < N then Inl TorchError
              else Inl AttributeError))
        else
          (let batch_seq_embeddings_sum = map (sum_dim1 D) batch_seq_embeddings in
           if pooling_type self = ''sum'' then
             (if keepdim self then Inr (T3 (map (\<lambda>v. [v]) batch_seq_embeddings_sum))
              else Inr (T2 batch_seq_embeddings_sum))
           else if keepdim self then
             Inr (T3 (map2 (\<lambda>v s. [map (\<lambda>e. e / (real_of_int s + float32_eps)) v])
                        batch_seq_embeddings_sum seq_len))
           else if 0 \<in> set seq_len \<and> 0 < D then Inr NonFinite
           else
             Inr (T2 (map2 (\<lambda>v s. map (\<lambda>e. e / real_of_int s) v)
                        batch_seq_embeddings_sum seq_len))))
     else if pooling_type self = ''last'' then
       (if length seq_len \<noteq> N then Inl TorchError
        else if \<exists>s \<in> set seq_len. s - 1 < 0 \<or> int L \<le> s - 1 then Inl TorchError
        else
        let output = map2 (\<lambda>row s. map (\<lambda>d. row ! nat (s - 1) ! d) [0..<D])
                       batch_seq_embeddings seq_len
        in Inr (if \<not> keepdim self then T2 output else T3 (map (\<lambda>v. [v]) output)))
     else Inl UnboundLocalError)"

section \<open>model/basemodel.py: BaseModel\<close>

text \<open>
  Python values as far as the model reads them: the configuration is a dictionary that may
  hold dictionaries, a checkpoint is a dictionary that holds a configuration and a state
  dictionary of named tensors. A tensor of a state dictionary is a shape and its entries
  in row-major order.
\<close>

datatype tensor = Tensor (shape: "nat list") (elems: "real list")

datatype pyobj =
    PInt int
  | PStr string
  | PReal real
  | PTensor tensor
  | PDict "(string \<times> pyobj) list"

text \<open>\<open>d[k]\<close> on a dictionary.\<close>

definition getitem :: "pyobj \<Rightarrow> string \<Rightarrow> exn + pyobj" where
  "getitem d k =
     (case d of
        PDict kvs \<Rightarrow> (case map_of kvs k of None \<Rightarrow> Inl KeyError | Some v \<Rightarrow> Inr v)
      | _ \<Rightarrow> Inl TypeError)"

text \<open>
  The fields of a \<open>BaseModel\<close> that the modelled methods read and write.
  \<open>item_embedding\<close> is the weight matrix \<open>[num_items, embed_dim]\<close> of the embedding
  created on line 38; \<open>parameters\<close> are the other registered parameters, those a
  subclass adds, by name. \<open>eval_domain\<close> is unset until \<open>set_eval_domain\<close> runs.
\<close>

record BaseModel =
  config :: pyobj
  ckpt_path :: "string option"
  num_items :: nat
  embed_dim :: nat
  max_seq_len :: int
  item_embedding :: "real list list"
  parameters :: "(string \<times> tensor) list"
  domain_item_mapping :: "(string \<times> nat list) list"
  eval_domain :: "string option"

text \<open>A batch: integer tensors keyed by field name, of one or two dimensions.\<close>

datatype field = F1 "int list" | F2 "int list list"

type_synonym batch = "string \<rightharpoonup> field"

subsection \<open>Negative sampling\<close>

text \<open>
  \<open>weight[i, v] = 0.0\<close> in one row: Python indexing, a negative index counts from the
  end, an index out of range raises.
\<close>

definition set_zero :: "real list \<Rightarrow> int \<Rightarrow> exn + real list" where
  "set_zero w v =
     (let n = int (length w); j = (if v < 0 then v + n else v)
      in if 0 \<le> j \<and> j < n then Inr (w[nat j := 0]) else Inl TorchError)"

fun set_zeros :: "real list \<Rightarrow> int list \<Rightarrow> exn + real list" where
  "set_zeros w [] = Inr w"
| "set_zeros w (v # vs) =
     (case set_zero w v of Inl e \<Rightarrow> Inl e | Inr w' \<Rightarrow> set_zeros w' vs)"

text \<open>Line 51, \<open>weight[_idx, user_seq] = 0.0\<close>: row \<open>i\<close> is zeroed at the items of \<open>user_seq[i]\<close>.\<close>

fun index_put_zero :: "real list list \<Rightarrow> int list list \<Rightarrow> exn + real list list" where
  "index_put_zero [] [] = Inr []"
| "index_put_zero (w # ws) (u # us) =
     (case set_zeros w u of
        Inl e \<Rightarrow> Inl e
      | Inr w' \<Rightarrow>
          (case index_put_zero ws us of Inl e \<Rightarrow> Inl e | Inr ws' \<Rightarrow> Inr (w' # ws')))"
| "index_put_zero _ _ = Inl TorchError"

text \<open>
  \<open>torch.multinomial(weight, n, replacement=True)\<close> draws, in every row, \<open>n\<close> indices,
  each with a probability proportional to its weight: an index of weight 0 is never
  drawn. The draws are a parameter: \<open>rnd i j\<close> is the random number behind draw \<open>j\<close> of
  row \<open>i\<close>, and it selects among the indices of positive weight, so every possible
  outcome is the outcome for some \<open>rnd\<close>. The library rejects \<open>n <= 0\<close>, more than
  \<open>2^24\<close> categories, a negative weight and a row whose weights are all 0.
\<close>

definition support :: "real list \<Rightarrow> nat list" where
  "support w = filter (\<lambda>j. 0 < w ! j) [0..<length w]"

definition multinomial :: "real list list \<Rightarrow> int \<Rightarrow> (nat \<Rightarrow> nat \<Rightarrow> nat) \<Rightarrow> exn + nat list list" where
  "multinomial weight n rnd =
     (if n \<le> 0 then Inl TorchError
      else if \<exists>w \<in> set weight. 2 ^ 24 < length w then Inl TorchError
      else if \<exists>w \<in> set weight. \<exists>x \<in> set w. x < 0 then Inl TorchError
      else if \<exists>w \<in> set weight. support w = [] then Inl TorchError
      else Inr (map (\<lambda>i. map (\<lambda>j. support (weight ! i) ! (rnd i j mod length (support (weight ! i))))
                            [0..<nat n])
                  [0..<length weight]))"

text \<open>\<open>neg_idx.reshape(B, m, k)\<close> of a tensor \<open>[B, m * k]\<close>, for sizes that are positive.\<close>

definition reshape3 :: "nat list list \<Rightarrow> int \<Rightarrow> int \<Rightarrow> exn + nat list list list" where
  "reshape3 x m k =
     (if m \<le> 0 \<or> k \<le> 0 then Inl TorchError
      else Inr (map (\<lambda>row. map (\<lambda>t. take (nat k) (drop (t * nat k) row)) [0..<nat m]) x))"

text \<open>\<open>BaseModel._neg_sampling\<close>, lines 47 to 55.\<close>

definition neg_sampling :: "BaseModel \<Rightarrow> batch \<Rightarrow> (nat \<Rightarrow> nat \<Rightarrow> nat) \<Rightarrow> exn + nat list list list" where
  "neg_sampling self batch rnd =
     (case batch ''user_seq'' of
        None \<Rightarrow> Inl KeyError
      | Some (F1 _) \<Rightarrow> Inl TorchError
      | Some (F2 user_seq) \<Rightarrow>
          (case index_put_zero (replicate (length user_seq) (replicate (num_items self) 1)) user_seq of
             Inl e \<Rightarrow> Inl e
           | Inr weight \<Rightarrow>
               if num_items self = 0 then Inl TorchError
               else
               let weight = map (\<lambda>w. w[0 := 0]) weight in
               (case getitem (config self) ''num_neg'' of
                  Inl e \<Rightarrow> Inl e
                | Inr (PInt num_neg) \<Rightarrow>
                    (case multinomial weight (num_neg * max_seq_len self) rnd of
                       Inl e \<Rightarrow> Inl e
                     | Inr neg_idx \<Rightarrow> reshape3 neg_idx (max_seq_len self) num_neg)
                | Inr _ \<Rightarrow> Inl TypeError)))"

subsection \<open>Top-k recommendation\<close>

text \<open>
  A score is a float32 value: a finite number, an infinity, or NaN. The rounding of a
  finite result is left out, its overflow is not: a product or a sum whose magnitude
  reaches \<open>(2 - 2^-24) * 2^127\<close>, where rounding to the nearest float32 gives an infinity,
  is that infinity, and the sum of the two infinities is NaN. The entries of the query
  and of the embedding weights are finite.
\<close>

datatype score = NaN | NegInf | Fin real | PosInf

definition float32_overflow :: real where
  "float32_overflow = (2 - 1 / 2 ^ 24) * 2 ^ 127"

definition f32 :: "real \<Rightarrow> score" where
  "f32 x =
     (if float32_overflow \<le> x then PosInf
      else if x \<le> - float32_overflow then NegInf
      else Fin x)"

fun f32_add :: "score \<Rightarrow> score \<Rightarrow> score" where
  "f32_add NaN _ = NaN"
| "f32_add _ NaN = NaN"
| "f32_add PosInf NegInf = NaN"
| "f32_add NegInf PosInf = NaN"
| "f32_add PosInf _ = PosInf"
| "f32_add _ PosInf = PosInf"
| "f32_add NegInf _ = NegInf"
| "f32_add _ NegInf = NegInf"
| "f32_add (Fin a) (Fin b) = f32 (a + b)"

text \<open>
  \<open>score_le a b\<close> is the order in which \<open>torch.topk\<close> compares: \<open>-inf\<close> is the least
  score, NaN counts as greater than every other one.
\<close>

fun score_le :: "score \<Rightarrow> score \<Rightarrow> bool" where
  "score_le _ NaN = True"
| "score_le NaN _ = False"
| "score_le NegInf _ = True"
| "score_le _ NegInf = False"
| "score_le _ PosInf = True"
| "score_le PosInf _ = False"
| "score_le (Fin x) (Fin y) = (x \<le> y)"

text \<open>
  \<open>query @ self.item_embedding.weight.T\<close>: the score of item \<open>j\<close> for row \<open>i\<close> is the
  float32 sum of the float32 products of the entries of \<open>query[i]\<close> and \<open>weight[j]\<close>. The
  library leaves the order of the additions open; the model adds from left to right.
\<close>

definition dot :: "real list \<Rightarrow> real list \<Rightarrow> score" where
  "dot qr wr = foldl f32_add (Fin 0) (map2 (\<lambda>a b. f32 (a * b)) qr wr)"

definition matmul_T :: "real list list \<Rightarrow> real list list \<Rightarrow> score list list" where
  "matmul_T q W = map (\<lambda>qr. map (\<lambda>wr. dot qr wr) W) q"

text \<open>
  Lines 304 and 305: the mask is true at the items that are not of the evaluation domain.
  Item ids are natural numbers; an id that is not below \<open>num_items\<close> raises.
\<close>

definition domain_mask :: "nat \<Rightarrow> nat list \<Rightarrow> exn + bool list" where
  "domain_mask n items =
     (if \<exists>j \<in> set items. n \<le> j then Inl TorchError
      else Inr (map (\<lambda>j. j \<notin> set items) [0..<n]))"

text \<open>
  \<open>torch.scatter(masked_score, 1, user_h, -inf)\<close>: row \<open>i\<close> of the scores is set to
  \<open>-inf\<close> at the indices of row \<open>i\<close> of \<open>user_h\<close>. An index outside \<open>[0, n)\<close> raises
  (scatter does not count from the end), and so does an index tensor with more rows
  than the scores; rows of scores beyond those of the index are left as they are.
\<close>

definition scatter_row :: "score list \<Rightarrow> int list \<Rightarrow> exn + score list" where
  "scatter_row row idx =
     (if \<exists>v \<in> set idx. v < 0 \<or> int (length row) \<le> v then Inl TorchError
      else Inr (map (\<lambda>j. if int j \<in> set idx then NegInf else row ! j) [0..<length row]))"

fun scatter :: "score list list \<Rightarrow> int list list \<Rightarrow> exn + score list list" where
  "scatter rows [] = Inr rows"
| "scatter [] (u # us) = Inl TorchError"
| "scatter (r # rs) (u # us) =
     (case scatter_row r u of
        Inl e \<Rightarrow> Inl e
      | Inr r' \<Rightarrow> (case scatter rs us of Inl e \<Rightarrow> Inl e | Inr rs' \<Rightarrow> Inr (r' # rs')))"

text \<open>Line 307, \<open>user_h[user_h == -1] = 0\<close>.\<close>

definition pad_history :: "int list \<Rightarrow> int list" where
  "pad_history h = map (\<lambda>v. if v = - 1 then 0 else v) h"

text \<open>
  Lines 303 to 308, from the query that \<open>self.forward(batch)\<close> returned to the masked
  scores. The shapes that the matrix product and \<open>masked_fill\<close> need are checked first.
\<close>

definition masked_score ::
  "BaseModel \<Rightarrow> real list list \<Rightarrow> int list list option \<Rightarrow> exn + score list list" where
  "masked_score self query user_h =
     (if \<not> has_shape2 (length query) (embed_dim self) query
         \<or> \<not> has_shape2 (num_items self) (embed_dim self) (item_embedding self)
      then Inl TorchError
      else
      let real_score = matmul_T query (item_embedding self) in
      case eval_domain self of
        None \<Rightarrow> Inl AttributeError
      | Some domain \<Rightarrow>
          (case map_of (domain_item_mapping self) domain of
             None \<Rightarrow> Inl KeyError
           | Some items \<Rightarrow>
               (case domain_mask (num_items self) items of
                  Inl e \<Rightarrow> Inl e
                | Inr dmask \<Rightarrow>
                    let masked = map (\<lambda>row. map2 (\<lambda>m s. if m then NegInf else s) dmask row)
                                   real_score
                    in (case user_h of
                          None \<Rightarrow> Inl TypeError
                        | Some uh \<Rightarrow> scatter masked (map pad_history uh)))))"

text \<open>
  \<open>torch.topk(row, k)\<close> returns \<open>k\<close> different indices of the row, ordered by
  decreasing score, such that no index left out has a score above a returned one. Which
  of two indices of equal score it returns is left open by the library, so the model is
  this contract and not one choice.
\<close>

definition torch_topk_ok :: "score list \<Rightarrow> nat \<Rightarrow> nat list \<Rightarrow> bool" where
  "torch_topk_ok row k idx =
     (length idx = k \<and> distinct idx \<and> list_all (\<lambda>j. j < length row) idx \<and>
      list_all (\<lambda>a. list_all (\<lambda>b. a \<le> b \<longrightarrow> score_le (row ! (idx ! b)) (row ! (idx ! a))) [0..<k]) [0..<k] \<and>
      list_all (\<lambda>j. list_all (\<lambda>j'. j' \<in> set idx \<or> score_le (row ! j') (row ! j)) [0..<length row]) idx)"

text \<open>
  \<open>BaseModel.topk\<close>, lines 300 to 312, as a relation between the call and its outcome:
  an exception, or the scores and the items of a top-k selection of every row.
  \<open>model_forward\<close> is the \<open>forward\<close> of the subclass.
\<close>

definition topk ::
  "BaseModel \<Rightarrow> (batch \<Rightarrow> exn + real list list) \<Rightarrow> batch \<Rightarrow> int \<Rightarrow> int list list option
     \<Rightarrow> exn + (score list list \<times> nat list list) \<Rightarrow> bool" where
  "topk self model_forward batch k user_h outcome =
     (case model_forward batch of
        Inl e \<Rightarrow> outcome = Inl e
      | Inr query \<Rightarrow>
          (case masked_score self query user_h of
             Inl e \<Rightarrow> outcome = Inl e
           | Inr masked \<Rightarrow>
               if k < 0 \<or> int (num_items self) < k then outcome = Inl TorchError
               else (case outcome of
                       Inl _ \<Rightarrow> False
                     | Inr (score, topk_items) \<Rightarrow>
                         list_all2 (\<lambda>row idx. torch_topk_ok row (nat k) idx) masked topk_items \<and>
                         score = map2 (\<lambda>row idx. map (\<lambda>j. row ! j) idx) masked topk_items)))"

text \<open>
  The history of row \<open>i\<close> as the scatter reads it, the candidates of row \<open>i\<close> that no
  mask covers (the items of the domain that are not in the history), and those among
  them whose score is not \<open>-inf\<close>.
\<close>

definition history_of :: "int list list \<Rightarrow> nat \<Rightarrow> int list" where
  "history_of user_h i = (if i < length user_h then pad_history (user_h ! i) else [])"

definition candidates :: "nat \<Rightarrow> nat list \<Rightarrow> int list \<Rightarrow> nat list" where
  "candidates n items h = filter (\<lambda>j. j \<in> set items \<and> int j \<notin> set h) [0..<n]"

definition scored_candidates :: "BaseModel \<Rightarrow> real list \<Rightarrow> nat list \<Rightarrow> int list \<Rightarrow> nat list" where
  "scored_candidates self qr items h =
     filter (\<lambda>j. dot qr (item_embedding self ! j) \<noteq> NegInf) (candidates (num_items self) items h)"

subsection \<open>Checkpoints\<close>

text \<open>
  \<open>state_dict()\<close>: the weight of the item embedding and the other parameters, by name.
\<close>

definition state_dict :: "BaseModel \<Rightarrow> (string \<times> tensor) list" where
  "state_dict self =
     (''item_embedding.weight'',
      Tensor [num_items self, embed_dim self] (concat (item_embedding self))) # parameters self"

definition unflatten :: "nat \<Rightarrow> nat \<Rightarrow> real list \<Rightarrow> real list list" where
  "unflatten n d xs = map (\<lambda>i. take d (drop (i * d) xs)) [0..<n]"

definition tensor_of :: "(string \<times> pyobj) list \<Rightarrow> string \<Rightarrow> tensor" where
  "tensor_of kvs k = (case map_of kvs k of Some (PTensor t) \<Rightarrow> t | _ \<Rightarrow> Tensor [] [])"

text \<open>
  \<open>load_state_dict(sd)\<close>, strict as by default: a missing key, an unexpected key, a value
  that is not a tensor or a tensor of another shape raises; otherwise every parameter
  takes the stored entries.
\<close>

definition load_state_dict :: "BaseModel \<Rightarrow> pyobj \<Rightarrow> exn + BaseModel" where
  "load_state_dict self sd =
     (case sd of
        PDict kvs \<Rightarrow>
          if set (map fst kvs) \<noteq> set (map fst (state_dict self)) then Inl TorchError
          else if \<not> list_all (\<lambda>(k, t). case map_of kvs k of
                                          Some (PTensor t') \<Rightarrow>
                                            shape t' = shape t \<and> length (elems t') = prod_list (shape t')
                                        | _ \<Rightarrow> False) (state_dict self)
          then Inl TorchError
          else Inr (self\<lparr>item_embedding :=
                            unflatten (num_items self) (embed_dim self)
                              (elems (tensor_of kvs ''item_embedding.weight'')),
                         parameters := map (\<lambda>(k, t). (k, tensor_of kvs k)) (parameters self)\<rparr>)
      | _ \<Rightarrow> Inl AttributeError)"

text \<open>
  \<open>BaseModel.load_checkpoint\<close>, lines 350 to 353. \<open>files\<close> maps a path to the object
  that \<open>torch.load\<close> reads there.
\<close>

definition load_checkpoint :: "(string \<rightharpoonup> pyobj) \<Rightarrow> BaseModel \<Rightarrow> string \<Rightarrow> exn + BaseModel" where
  "load_checkpoint files self path =
     (case files path of
        None \<Rightarrow> Inl OSError
      | Some ckpt \<Rightarrow>
          (case getitem ckpt ''config'' of
             Inl e \<Rightarrow> Inl e
           | Inr c \<Rightarrow>
               let self = self\<lparr>config := c\<rparr> in
               (case getitem ckpt ''parameters'' of
                  Inl e \<Rightarrow> Inl e
                | Inr sd \<Rightarrow> load_state_dict self sd)))"

subsection \<open>The training loop\<close>

text \<open>
  \<open>BaseModel.fit_loop\<close>, lines 94 to 144. The trainer is its checkpoint path and the rest
  of the object (parameters, mode, logged metrics, the state of the callback), which
  \<open>fit_loop\<close> itself does not read. The methods and collaborators that \<open>fit_loop\<close>
  calls are parameters; each of them returns, or raises an exception and leaves the
  trainer in some state:
  \<^item> \<open>train_start\<close>, line 97;
  \<open>training_epoch\<close>, lines 99 to 106;
  \<open>validation_domain\<close>, lines 113 to 117, for one domain;
  \<open>log_domains\<close>, lines 118 to 125;
  \<open>training_epoch_end\<close>, line 128;
  \<open>callback\<close>, line 131, which answers whether to stop;
  \<open>training_end\<close>, line 137;
  \<^item> \<open>save_checkpoint\<close> and \<open>get_checkpoint_path\<close>, the two methods of the callback
  that lines 138 to 143 call.

  An exception raised inside the \<open>try\<close> block is a triple: the exception, the value of
  the local variable \<open>nepoch\<close> at that moment, and the trainer.
\<close>

record 'm trainer =
  trainer_ckpt_path :: "string option"
  rest :: 'm

record 'm hooks =
  train_start :: "'m trainer \<Rightarrow> (exn \<times> 'm trainer) + 'm trainer"
  training_epoch :: "nat \<Rightarrow> 'm trainer \<Rightarrow> (exn \<times> 'm trainer) + 'm trainer"
  validation_domain :: "string \<Rightarrow> nat \<Rightarrow> 'm trainer \<Rightarrow> (exn \<times> 'm trainer) + 'm trainer"
  log_domains :: "'m trainer \<Rightarrow> (exn \<times> 'm trainer) + 'm trainer"
  training_epoch_end :: "'m trainer \<Rightarrow> (exn \<times> 'm trainer) + 'm trainer"
  callback :: "nat \<Rightarrow> 'm trainer \<Rightarrow> (exn \<times> 'm trainer) + (bool \<times> 'm trainer)"
  training_end :: "'m trainer \<Rightarrow> (exn \<times> 'm trainer) + 'm trainer"
  save_checkpoint :: "nat \<Rightarrow> 'm trainer \<Rightarrow> (exn \<times> 'm trainer) + 'm trainer"
  get_checkpoint_path :: "'m trainer \<Rightarrow> (exn \<times> 'm trainer) + string"

text \<open>Lines 112 to 117: the validation of every domain in turn.\<close>

fun validation_procedure ::
  "'m hooks \<Rightarrow> string list \<Rightarrow> nat \<Rightarrow> 'm trainer \<Rightarrow> (exn \<times> 'm trainer) + 'm trainer" where
  "validation_procedure h [] nepoch s = Inr s"
| "validation_procedure h (domain # domains) nepoch s =
     (case validation_domain h domain nepoch s of
        Inl x \<Rightarrow> Inl x
      | Inr s' \<Rightarrow> validation_procedure h domains nepoch s')"

text \<open>
  Lines 98 to 135: the \<open>for\<close> loop, by the number of iterations that remain. It ends
  when the range is exhausted or when the callback asks to stop (the \<open>break\<close>), and
  returns the final \<open>nepoch\<close>.
\<close>

fun epoch_loop ::
  "'m hooks \<Rightarrow> string list \<Rightarrow> nat \<Rightarrow> nat \<Rightarrow> 'm trainer
     \<Rightarrow> (exn \<times> nat \<times> 'm trainer) + (nat \<times> 'm trainer)" where
  "epoch_loop h domains 0 nepoch s = Inr (nepoch, s)"
| "epoch_loop h domains (Suc remaining) nepoch s =
     (case training_epoch h nepoch s of
        Inl (e, s') \<Rightarrow> Inl (e, nepoch, s')
      | Inr s1 \<Rightarrow>
     (case validation_procedure h domains nepoch s1 of
        Inl (e, s') \<Rightarrow> Inl (e, nepoch, s')
      | Inr s2 \<Rightarrow>
     (case log_domains h s2 of
        Inl (e, s') \<Rightarrow> Inl (e, nepoch, s')
      | Inr s3 \<Rightarrow>
     (case training_epoch_end h s3 of
        Inl (e, s') \<Rightarrow> Inl (e, nepoch, s')
      | Inr s4 \<Rightarrow>
     (case callback h nepoch s4 of
        Inl (e, s') \<Rightarrow> Inl (e, nepoch, s')
      | Inr (stop_training, s5) \<Rightarrow>
          if stop_training then Inr (nepoch, s5)
          else epoch_loop h domains remaining (nepoch + 1) s5)))))"

text \<open>Lines 96 to 139: the body of the \<open>try\<close> block; \<open>epochs\<close> is \<open>config['epochs']\<close>.\<close>

definition try_block ::
  "'m hooks \<Rightarrow> string list \<Rightarrow> int \<Rightarrow> 'm trainer \<Rightarrow> (exn \<times> nat \<times> 'm trainer) + 'm trainer" where
  "try_block h domains epochs s =
     (case train_start h s of
        Inl (e, s') \<Rightarrow> Inl (e, 0, s')
      | Inr s0 \<Rightarrow>
     (case epoch_loop h domains (nat epochs) 0 s0 of
        Inl x \<Rightarrow> Inl x
      | Inr (nepoch, s1) \<Rightarrow>
     (case training_end h s1 of
        Inl (e, s') \<Rightarrow> Inl (e, nepoch, s')
      | Inr s2 \<Rightarrow>
     (case save_checkpoint h nepoch s2 of
        Inl (e, s') \<Rightarrow> Inl (e, nepoch, s')
      | Inr s3 \<Rightarrow>
     (case get_checkpoint_path h s3 of
        Inl (e, s') \<Rightarrow> Inl (e, nepoch, s')
      | Inr p \<Rightarrow> Inr (s3\<lparr>trainer_ckpt_path := Some p\<rparr>))))))"

text \<open>
  Lines 140 to 143: the handler catches KeyboardInterrupt and nothing else; what the
  handler itself raises propagates.
\<close>

definition fit_loop ::
  "'m hooks \<Rightarrow> string list \<Rightarrow> int \<Rightarrow> 'm trainer \<Rightarrow> (exn \<times> 'm trainer) + 'm trainer" where
  "fit_loop h domains epochs s =
     (case try_block h domains epochs s of
        Inr s' \<Rightarrow> Inr s'
      | Inl (e, nepoch, s') \<Rightarrow>
          if e = KeyboardInterrupt then
            (case save_checkpoint h nepoch s' of
               Inl x \<Rightarrow> Inl x
             | Inr s2 \<Rightarrow>
                 (case get_checkpoint_path h s2 of
                    Inl x \<Rightarrow> Inl x
                  | Inr p \<Rightarrow> Inr (s2\<lparr>trainer_ckpt_path := Some p\<rparr>)))
          else Inl (e, s'))"

section \<open>model/metamodel.py: MetaModel\<close>

text \<open>
  The embedding of a model is an object: an attribute \<open>item_embedding\<close> holds a
  reference to it, and two attributes may hold the same reference. The heap maps the
  address of an embedding object to its weights, of a type \<open>'w\<close>; \<open>'p\<close> is the type of
  the other parameters of a sub-model (with the state of its optimizer), \<open>'q\<close> that of the
  parameters of the meta module, \<open>'b\<close> that of a batch and \<open>'l\<close> that of a loss.
\<close>

type_synonym addr = nat

text \<open>
  A sub-model, an instance of a \<open>BaseModel\<close> subclass: \<open>embedding_ref\<close> is its
  attribute \<open>item_embedding\<close>, \<open>optimizer_steps\<close> counts the calls of its
  \<open>optimizer.step()\<close>.
\<close>

record 'p model =
  embedding_ref :: addr
  model_parameters :: 'p
  optimizer_steps :: nat

text \<open>
  The \<open>MetaModel\<close>: \<open>item_embedding_ref\<close> is its attribute \<open>item_embedding\<close>, which
  line 27 sets to \<open>None\<close>; \<open>meta_optimizer_steps\<close> counts the calls of
  \<open>meta_optimizer.step\<close>; \<open>metaloader_iter\<close> is what the iterator has still to yield.
\<close>

record ('w, 'p, 'q, 'b) MetaModel =
  heap :: "addr \<Rightarrow> 'w"
  next_free :: addr
  item_embedding_ref :: "addr option"
  sub_model :: "'p model"
  meta_module :: 'q
  meta_optimizer_steps :: nat
  metaloader_iter :: "'b list"
  step_counter :: nat

text \<open>
  What the trainer is given, and the code it calls that is not in \<open>metamodel.py\<close>:
  \<^item> \<open>new_embedding\<close>, \<open>new_parameters\<close>: the parameters of a model that
    \<open>_register_sub_model\<close> has just constructed; \<open>new_meta_module\<close>: those of the module
    of \<open>_register_meta_modules\<close> after its initialisation;
  \<^item> \<open>sub_init\<close>: the \<open>_init_model\<close> of the sub-model class, which initialises the
    parameters of the model it is called on, or raises;
  \<^item> \<open>meta_loader\<close>, \<open>train_loader\<close>: the batches that one iteration over the loader
    of \<open>current_epoch_metaloaders\<close>, of \<open>current_epoch_trainloaders\<close>, yields;
  \<^item> \<open>prepare\<close>: moving a batch to the device and adding its negative samples, which
    may raise;
  \<^item> \<open>training_step q m w b\<close>: the loss of \<open>MetaModel.training_step(b, sub_model=x)\<close>,
    where \<open>q\<close> are the parameters of the meta module, \<open>m\<close> those of \<open>self.sub_model\<close>,
    which computes the query, and \<open>w\<close> the weights of the embedding of \<open>x\<close>;
    \<open>sub_training_step m b\<close>: the loss of \<open>self.sub_model.training_step(b)\<close>;
  \<^item> \<open>optimizer_step l m\<close>: the parameters of a model after \<open>l.backward()\<close> and the
    step of its optimizer;
  \<^item> \<open>descent_step\<close>, \<open>interval\<close>, \<open>warmup_epoch\<close>: the entries of \<open>config['train']\<close>.
\<close>

record ('w, 'p, 'q, 'b, 'l) env =
  new_embedding :: 'w
  new_parameters :: 'p
  new_meta_module :: 'q
  sub_init :: "'w \<times> 'p \<Rightarrow> exn + 'w \<times> 'p"
  meta_loader :: "'b list"
  train_loader :: "'b list"
  prepare :: "'b \<Rightarrow> exn + 'b"
  training_step :: "'q \<Rightarrow> 'w \<times> 'p \<Rightarrow> 'w \<Rightarrow> 'b \<Rightarrow> 'l"
  sub_training_step :: "'w \<times> 'p \<Rightarrow> 'b \<Rightarrow> 'l"
  optimizer_step :: "'l \<Rightarrow> 'w \<times> 'p \<Rightarrow> 'w \<times> 'p"
  meta_optimizer_step :: "'l \<Rightarrow> 'l \<Rightarrow> 'q \<Rightarrow> 'w \<times> 'p \<Rightarrow> 'q"
  descent_step :: int
  interval :: int
  warmup_epoch :: int

text \<open>
  Modelled from the spec: \<open>utils.MetaOptimizer\<close> is not among the sources, so
  \<open>meta_optimizer_step\<close> above stands for its \<open>step(val_loss, train_loss, aux_params,
  parameters)\<close>. The spec describes the outer loop as "a bi-level optimization updating a
  selection/weighting module using validation-loss gradients through an inner model
  update (hypergradient)", and line 58 hands the wrapped optimizer the parameters of the
  meta module only: the step reads the two losses, the parameters of the meta module and
  those of the sub-model, and returns new parameters of the meta module.
\<close>

definition meta_optimizer_call ::
  "('w, 'p, 'q, 'b, 'l) env \<Rightarrow> 'l \<Rightarrow> 'l \<Rightarrow> ('w, 'p, 'q, 'b) MetaModel \<Rightarrow> ('w, 'p, 'q, 'b) MetaModel" where
  "meta_optimizer_call env val_loss train_loss s =
     s\<lparr>meta_module :=
          meta_optimizer_step env val_loss train_loss (meta_module s)
            (heap s (embedding_ref (sub_model s)), model_parameters (sub_model s)),
       meta_optimizer_steps := meta_optimizer_steps s + 1\<rparr>"

text \<open>
  \<open>MetaModel.__init__\<close> and \<open>MetaModel._init_model\<close>, lines 23 to 39. The constructor
  of the base class creates an embedding (basemodel.py, line 38), which line 27 drops;
  line 30 constructs the sub-model with an embedding of its own, line 31 initialises it,
  line 32 copies the reference.
\<close>

definition init_model ::
  "('w, 'p, 'q, 'b, 'l) env \<Rightarrow> (addr \<Rightarrow> 'w) \<Rightarrow> addr \<Rightarrow> exn + ('w, 'p, 'q, 'b) MetaModel" where
  "init_model env heap0 free0 =
     (let own = free0;
          heap1 = heap0(own := new_embedding env);
          a = own + 1;
          heap2 = heap1(a := new_embedding env)
      in case sub_init env (heap2 a, new_parameters env) of
           Inl e \<Rightarrow> Inl e
         | Inr (w, p) \<Rightarrow>
             let s = \<lparr>heap = heap2(a := w), next_free = a + 1, item_embedding_ref = None,
                      sub_model = \<lparr>embedding_ref = a, model_parameters = p, optimizer_steps = 0\<rparr>,
                      meta_module = new_meta_module env, meta_optimizer_steps = 0,
                      metaloader_iter = meta_loader env, step_counter = 0\<rparr>
             in Inr (s\<lparr>item_embedding_ref := Some (embedding_ref (sub_model s))\<rparr>))"

text \<open>
  Lines 132 to 141: the loop over the meta loader, which leaves at index \<open>descent_step\<close>.
  The proxy model is a local object: its embedding weights, its other parameters and
  the count of the steps of its optimizer. The query is computed by \<open>self.sub_model\<close>,
  whose parameters are \<open>m\<close>.
\<close>

fun inner_loop ::
  "('w, 'p, 'q, 'b, 'l) env \<Rightarrow> 'q \<Rightarrow> 'w \<times> 'p \<Rightarrow> 'b list \<Rightarrow> nat \<Rightarrow> ('w \<times> 'p) \<times> nat
     \<Rightarrow> exn + ('w \<times> 'p) \<times> nat" where
  "inner_loop env q m [] batch_idx proxy = Inr proxy"
| "inner_loop env q m (b # bs) batch_idx (proxy_model, steps) =
     (if int batch_idx \<ge> descent_step env then Inr (proxy_model, steps)
      else case prepare env b of
             Inl e \<Rightarrow> Inl e
           | Inr batch \<Rightarrow>
               let loss = training_step env q m (fst proxy_model) batch
               in inner_loop env q m bs (batch_idx + 1)
                    (optimizer_step env loss proxy_model, steps + 1))"

text \<open>
  Lines 119 to 141: the assertion, the proxy model, constructed and initialised like a
  sub-model and then loaded with the state of \<open>self.sub_model\<close>, and the loop.
\<close>

definition proxy_after_descent ::
  "('w, 'p, 'q, 'b, 'l) env \<Rightarrow> ('w, 'p, 'q, 'b) MetaModel \<Rightarrow> exn + ('w \<times> 'p) \<times> nat" where
  "proxy_after_descent env s =
     (if \<not> descent_step env < int (length (meta_loader env)) then Inl AssertionError
      else case sub_init env (new_embedding env, new_parameters env) of
             Inl e \<Rightarrow> Inl e
           | Inr _ \<Rightarrow>
               let m = (heap s (embedding_ref (sub_model s)), model_parameters (sub_model s));
                   proxy_model = m
               in inner_loop env (meta_module s) m (meta_loader env) 0 (proxy_model, 0))"

text \<open>Lines 143 to 147: the next batch of the iterator, which is renewed once when exhausted.\<close>

definition next_meta_batch ::
  "('w, 'p, 'q, 'b, 'l) env \<Rightarrow> ('w, 'p, 'q, 'b) MetaModel \<Rightarrow> exn + 'b \<times> ('w, 'p, 'q, 'b) MetaModel" where
  "next_meta_batch env s =
     (case metaloader_iter s of
        b # bs \<Rightarrow> Inr (b, s\<lparr>metaloader_iter := bs\<rparr>)
      | [] \<Rightarrow>
          (case meta_loader env of
             [] \<Rightarrow> Inl StopIteration
           | b # bs \<Rightarrow> Inr (b, s\<lparr>metaloader_iter := bs\<rparr>)))"

text \<open>\<open>MetaModel._outter_loop\<close>, lines 118 to 167.\<close>

definition outter_loop ::
  "('w, 'p, 'q, 'b, 'l) env \<Rightarrow> ('w, 'p, 'q, 'b) MetaModel \<Rightarrow> exn + ('w, 'p, 'q, 'b) MetaModel" where
  "outter_loop env s =
     (case proxy_after_descent env s of
        Inl e \<Rightarrow> Inl e
      | Inr (proxy_model, steps) \<Rightarrow>
     (case next_meta_batch env s of
        Inl e \<Rightarrow> Inl e
      | Inr (b, s1) \<Rightarrow>
     (case prepare env b of
        Inl e \<Rightarrow> Inl e
      | Inr batch \<Rightarrow>
          let m = (heap s1 (embedding_ref (sub_model s1)), model_parameters (sub_model s1));
              meta_loss = training_step env (meta_module s1) m (fst proxy_model) batch
          in (case train_loader env of
                [] \<Rightarrow> Inl StopIteration
              | b' # _ \<Rightarrow>
                  (case prepare env b' of
                     Inl e \<Rightarrow> Inl e
                   | Inr batch' \<Rightarrow>
                       let meta_train_loss = training_step env (meta_module s1) m (fst m) batch'
                       in Inr (meta_optimizer_call env meta_loss meta_train_loss s1))))))"

text \<open>
  Lines 99 to 114: the body of the loop of \<open>MetaModel.training_epoch\<close> for one batch.
  The step of the optimizer of the sub-model updates the weights of its embedding in
  place.
\<close>

definition train_batch ::
  "('w, 'p, 'q, 'b, 'l) env \<Rightarrow> int \<Rightarrow> 'b \<Rightarrow> ('w, 'p, 'q, 'b) MetaModel \<Rightarrow> exn + ('w, 'p, 'q, 'b) MetaModel" where
  "train_batch env nepoch b s =
     (case prepare env b of
        Inl e \<Rightarrow> Inl e
      | Inr batch \<Rightarrow>
          let sub = sub_model s;
              m = (heap s (embedding_ref sub), model_parameters sub);
              loss = (if nepoch > warmup_epoch env
                      then training_step env (meta_module s) m (fst m) batch
                      else sub_training_step env m batch);
              m' = optimizer_step env loss m;
              s1 = s\<lparr>heap := (heap s)(embedding_ref sub := fst m'),
                     sub_model := sub\<lparr>model_parameters := snd m',
                                       optimizer_steps := optimizer_steps sub + 1\<rparr>,
                     step_counter := step_counter s + 1\<rparr>
          in if interval env = 0 then Inl ZeroDivisionError
             else if int (step_counter s1) mod interval env = 0 \<and> nepoch > warmup_epoch env
             then outter_loop env s1
             else Inr s1)"

text \<open>Lines 98 to 115: the batches of a loader in turn, and any sequence of such steps.\<close>

fun train_batches ::
  "('w, 'p, 'q, 'b, 'l) env \<Rightarrow> (int \<times> 'b) list \<Rightarrow> ('w, 'p, 'q, 'b) MetaModel
     \<Rightarrow> exn + ('w, 'p, 'q, 'b) MetaModel" where
  "train_batches env [] s = Inr s"
| "train_batches env ((nepoch, b) # steps) s =
     (case train_batch env nepoch b s of
        Inl e \<Rightarrow> Inl e
      | Inr s' \<Rightarrow> train_batches env steps s')"

definition meta_training_epoch ::
  "('w, 'p, 'q, 'b, 'l) env \<Rightarrow> int \<Rightarrow> ('w, 'p, 'q, 'b) MetaModel \<Rightarrow> exn + ('w, 'p, 'q, 'b) MetaModel" where
  "meta_training_epoch env nepoch s = train_batches env (map (Pair nepoch) (train_loader env)) s"

text \<open>
  Reading and writing the weights of the item embedding through the sub-model and
  through the \<open>MetaModel\<close>; without a reference there is nothing to read or to write.
\<close>

definition read_sub :: "('w, 'p, 'q, 'b) MetaModel \<Rightarrow> 'w" where
  "read_sub s = heap s (embedding_ref (sub_model s))"

definition read_meta :: "('w, 'p, 'q, 'b) MetaModel \<Rightarrow> 'w option" where
  "read_meta s = map_option (heap s) (item_embedding_ref s)"

definition write_sub :: "'w \<Rightarrow> ('w, 'p, 'q, 'b) MetaModel \<Rightarrow> ('w, 'p, 'q, 'b) MetaModel" where
  "write_sub w s = s\<lparr>heap := (heap s)(embedding_ref (sub_model s) := w)\<rparr>"

definition write_meta :: "'w \<Rightarrow> ('w, 'p, 'q, 'b) MetaModel \<Rightarrow> ('w, 'p, 'q, 'b) MetaModel" where
  "write_meta w s =
     (case item_embedding_ref s of
        None \<Rightarrow> s
      | Some a \<Rightarrow> s\<lparr>heap := (heap s)(a := w)\<rparr>)"

text \<open>
  The inner updates as the specification words them: one gradient update of the proxy
  model for each of the given batches, in order.
\<close>

fun descend ::
  "('w, 'p, 'q, 'b, 'l) env \<Rightarrow> 'q \<Rightarrow> 'w \<times> 'p \<Rightarrow> 'b list \<Rightarrow> 'w \<times> 'p \<Rightarrow> 'w \<times> 'p" where
  "descend env q m [] proxy_model = proxy_model"
| "descend env q m (batch # batches) proxy_model =
     descend env q m batches
       (optimizer_step env (training_step env q m (fst proxy_model) batch) proxy_model)"

section \<open>Properties of SeqPoolingLayer\<close>

text \<open>
  C10. Constructing the layer with a \<open>pooling_type\<close> that is not one of \<open>'origin'\<close>,
  \<open>'mask'\<close>, \<open>'concat'\<close>, \<open>'sum'\<close>, \<open>'mean'\<close>, \<open>'max'\<close>, \<open>'last'\<close> raises ValueError;
  with any of the seven, construction succeeds and the layer stores that
  \<open>pooling_type\<close> unchanged.
\<close>

theorem SeqPoolingLayer_init_checks_pooling_type:
  "(pt \<notin> {''origin'', ''mask'', ''concat'', ''sum'', ''mean'', ''max'', ''last''}
      \<longrightarrow> SeqPoolingLayer_init pt kd = Inl ValueError) \<and>
   (pt \<in> {''origin'', ''mask'', ''concat'', ''sum'', ''mean'', ''max'', ''last''}
      \<longrightarrow> (\<exists>layer. SeqPoolingLayer_init pt kd = Inr layer \<and> pooling_type layer = pt))"
  by (simp add: SeqPoolingLayer_init_def)

theorem SeqPoolingLayer_init_checks_pooling_type_witness:
  "SeqPoolingLayer_init ''avg'' False = Inl ValueError \<and>
   (\<exists>layer. SeqPoolingLayer_init ''last'' False = Inr layer \<and> pooling_type layer = ''last'')"
  using SeqPoolingLayer_init_checks_pooling_type [of "''avg''" False]
        SeqPoolingLayer_init_checks_pooling_type [of "''last''" False]
  by simp

subsection \<open>Mean pooling\<close>

lemma foldr_vadd:
  "list_all (\<lambda>v. length v = D) rows \<Longrightarrow>
   foldr (map2 (+)) rows (replicate D (0::real)) = map (\<lambda>d. \<Sum>v\<leftarrow>rows. v ! d) [0..<D]"
proof (induction rows)
  case Nil
  then show ?case by (intro nth_equalityI) simp_all
next
  case (Cons v rows)
  then have len: "length v = D" and rest: "list_all (\<lambda>v. length v = D) rows" by simp_all
  have "map2 (+) v (map (\<lambda>d. \<Sum>u\<leftarrow>rows. u ! d) [0..<D]) = map (\<lambda>d. v ! d + (\<Sum>u\<leftarrow>rows. u ! d)) [0..<D]"
    using len by (intro nth_equalityI) simp_all
  with Cons.IH [OF rest] show ?case by simp
qed

lemma sum_dim1_eq:
  "list_all (\<lambda>v. length v = D) row \<Longrightarrow> sum_dim1 D row = map (\<lambda>d. \<Sum>v\<leftarrow>row. v ! d) [0..<D]"
  by (simp add: sum_dim1_def foldr_vadd)

lemma masked_row:
  assumes "has_shape2 L D row" "0 \<le> s" "s \<le> int L"
  shows "map2 (map2 (\<lambda>e m. if m then 0 else e)) row (map (\<lambda>l. replicate D (l \<ge> s)) (arange L))
         = take (nat s) row @ replicate (L - nat s) (replicate D (0::real))"
proof (rule nth_equalityI)
  show "length (map2 (map2 (\<lambda>e m. if m then 0 else e)) row (map (\<lambda>l. replicate D (l \<ge> s)) (arange L)))
         = length (take (nat s) row @ replicate (L - nat s) (replicate D (0::real)))"
    using assms by (simp add: has_shape2_def arange_def)
next
  fix l assume "l < length (map2 (map2 (\<lambda>e m. if m then 0 else e)) row (map (\<lambda>l. replicate D (l \<ge> s)) (arange L)))"
  then have l: "l < L" using assms by (simp add: has_shape2_def arange_def)
  have lenrow: "length row = L" and lenv: "length (row ! l) = D"
    using assms l by (simp_all add: has_shape2_def list_all_length)
  show "map2 (map2 (\<lambda>e m. if m then 0 else e)) row (map (\<lambda>l. replicate D (l \<ge> s)) (arange L)) ! l
        = (take (nat s) row @ replicate (L - nat s) (replicate D (0::real))) ! l"
  proof (cases "s \<le> int l")
    case True
    then have "\<not> l < nat s" by linarith
    moreover have "map2 (\<lambda>e m. if m then 0 else e) (row ! l) (replicate D True) = replicate D (0::real)"
      using lenv by (intro nth_equalityI) simp_all
    ultimately show ?thesis using l lenrow True assms
      by (simp add: arange_def nth_append)
  next
    case False
    then have "l < nat s" by linarith
    moreover have "map2 (\<lambda>e m. if m then 0 else e) (row ! l) (replicate D False) = row ! l"
      using lenv by (intro nth_equalityI) simp_all
    ultimately show ?thesis using l lenrow False assms
      by (simp add: arange_def nth_append)
  qed
qed


lemma sizes_of_shape3:
  assumes "has_shape3 N L D x" "0 < N" "0 < L"
  shows "length x = N" "size1 x = L" "size2 x = D"
proof -
  show "length x = N" using assms by (simp add: has_shape3_def)
  then obtain r rs where x: "x = r # rs" using assms(2) by (cases x) auto
  then have r: "has_shape2 L D r" using assms(1) by (simp add: has_shape3_def)
  then show "size1 x = L" using x by (simp add: size1_def has_shape2_def)
  from r assms(3) obtain v vs where "r = v # vs" by (cases r) (auto simp: has_shape2_def)
  with r x show "size2 x = D" by (simp add: size2_def has_shape2_def)
qed

lemma masked_fill_seq_mask:
  assumes "has_shape3 N L D x" "length seq_len = N"
    and "\<forall>i<N. 0 \<le> seq_len ! i \<and> seq_len ! i \<le> int L"
  shows "masked_fill x (seq_mask L D seq_len) 0 =
         map (\<lambda>i. take (nat (seq_len ! i)) (x ! i)
                    @ replicate (L - nat (seq_len ! i)) (replicate D 0)) [0..<N]"
proof (rule nth_equalityI)
  show "length (masked_fill x (seq_mask L D seq_len) 0) =
        length (map (\<lambda>i. take (nat (seq_len ! i)) (x ! i)
                    @ replicate (L - nat (seq_len ! i)) (replicate D 0)) [0..<N])"
    using assms by (simp add: masked_fill_def seq_mask_def has_shape3_def)
next
  fix i assume "i < length (masked_fill x (seq_mask L D seq_len) 0)"
  then have i: "i < N" using assms by (simp add: masked_fill_def seq_mask_def has_shape3_def)
  then have row: "has_shape2 L D (x ! i)" and lx: "length x = N"
    using assms(1) by (simp_all add: has_shape3_def list_all_length)
  from i assms(3) have s: "0 \<le> seq_len ! i" "seq_len ! i \<le> int L" by simp_all
  show "masked_fill x (seq_mask L D seq_len) 0 ! i =
        map (\<lambda>i. take (nat (seq_len ! i)) (x ! i)
                    @ replicate (L - nat (seq_len ! i)) (replicate D 0)) [0..<N] ! i"
    using i lx assms(2) masked_row [OF row s]
    by (simp add: masked_fill_def seq_mask_def)
qed

lemma sum_dim1_masked:
  assumes "has_shape2 L D row"
  shows "sum_dim1 D (take k row @ replicate m (replicate D 0)) =
         map (\<lambda>d. \<Sum>v\<leftarrow>take k row. v ! d) [0..<D]"
proof -
  have "list_all (\<lambda>v. length v = D) (take k row @ replicate m (replicate D (0::real)))"
    using assms by (auto simp: has_shape2_def list_all_iff dest: in_set_takeD)
  then have "sum_dim1 D (take k row @ replicate m (replicate D 0)) =
        map (\<lambda>d. \<Sum>v\<leftarrow>take k row @ replicate m (replicate D 0). v ! d) [0..<D]"
    by (rule sum_dim1_eq)
  also have "\<dots> = map (\<lambda>d. \<Sum>v\<leftarrow>take k row. v ! d) [0..<D]"
    by (simp add: sum_list_replicate)
  finally show ?thesis .
qed

lemma forward_mean:
  assumes shape: "has_shape3 N L D x" and len: "length seq_len = N"
    and valid: "\<forall>i<N. 1 \<le> seq_len ! i \<and> seq_len ! i \<le> int L"
  shows "forward \<lparr>pooling_type = ''mean'', keepdim = False\<rparr> x seq_len None mask_token =
     Inr (T2 (map (\<lambda>i. map (\<lambda>d. (\<Sum>v\<leftarrow>take (nat (seq_len ! i)) (x ! i). v ! d)
                                 / real_of_int (seq_len ! i)) [0..<D]) [0..<N]))"
proof (cases "N = 0")
  case True
  with shape len show ?thesis by (simp add: forward_def has_shape3_def masked_fill_def seq_mask_def)
next
  case False
  then have N: "0 < N" by simp
  with valid have "1 \<le> seq_len ! 0 \<and> seq_len ! 0 \<le> int L" by blast
  then have L: "0 < L" by linarith
  note sz = sizes_of_shape3 [OF shape N L]
  have nz: "0 \<notin> set seq_len"
  proof
    assume "0 \<in> set seq_len"
    then obtain i where "i < N" "seq_len ! i = 0" using len by (auto simp: in_set_conv_nth)
    with valid show False by force
  qed
  have valid0: "\<forall>i<N. 0 \<le> seq_len ! i \<and> seq_len ! i \<le> int L" using valid by force
  have rows: "\<And>i. i < N \<Longrightarrow> has_shape2 L D (x ! i)"
    using shape by (simp add: has_shape3_def list_all_length)
  have sums: "map (sum_dim1 D) (masked_fill x (seq_mask L D seq_len) 0) =
        map (\<lambda>i. map (\<lambda>d. \<Sum>v\<leftarrow>take (nat (seq_len ! i)) (x ! i). v ! d) [0..<D]) [0..<N]"
    unfolding masked_fill_seq_mask [OF shape len valid0]
  proof (rule nth_equalityI)
    fix i
    assume "i < length (map (sum_dim1 D) (map (\<lambda>i. take (nat (seq_len ! i)) (x ! i)
                    @ replicate (L - nat (seq_len ! i)) (replicate D 0)) [0..<N]))"
    then have i: "i < N" by simp
    then show "map (sum_dim1 D) (map (\<lambda>i. take (nat (seq_len ! i)) (x ! i)
                    @ replicate (L - nat (seq_len ! i)) (replicate D 0)) [0..<N]) ! i =
        map (\<lambda>i. map (\<lambda>d. \<Sum>v\<leftarrow>take (nat (seq_len ! i)) (x ! i). v ! d) [0..<D]) [0..<N] ! i"
      using sum_dim1_masked [OF rows [OF i]] by simp
  qed simp
  have quot: "map2 (\<lambda>v s. map (\<lambda>e. e / real_of_int s) v)
          (map (\<lambda>i. map (\<lambda>d. \<Sum>v\<leftarrow>take (nat (seq_len ! i)) (x ! i). v ! d) [0..<D]) [0..<N]) seq_len
        = map (\<lambda>i. map (\<lambda>d. (\<Sum>v\<leftarrow>take (nat (seq_len ! i)) (x ! i). v ! d)
                                 / real_of_int (seq_len ! i)) [0..<D]) [0..<N]"
    using len by (intro nth_equalityI) simp_all
  show ?thesis
    using nz len by (simp add: forward_def sz sums quot)
qed


text \<open>
  C2. For a 3-D batch \<open>[N, L, D]\<close> with no weight, \<open>keepdim=False\<close> and
  \<open>1 <= seq_len[i] <= L\<close> for every \<open>i\<close>, \<open>'mean'\<close> pooling returns a tensor
  \<open>[N, D]\<close> whose row \<open>i\<close> is the elementwise sum of the first \<open>seq_len[i]\<close>
  embeddings of sequence \<open>i\<close> divided by \<open>seq_len[i]\<close>; the positions at index
  \<open>seq_len[i]\<close> or beyond have no effect: a batch of the same shape that agrees on
  the positions before \<open>seq_len[i]\<close> gives the same result.
\<close>

theorem mean_pooling_is_masked_mean:
  assumes shape: "has_shape3 N L D x" and len: "length seq_len = N"
    and valid: "\<forall>i<N. 1 \<le> seq_len ! i \<and> seq_len ! i \<le> int L"
  shows "forward \<lparr>pooling_type = ''mean'', keepdim = False\<rparr> x seq_len None mask_token =
           Inr (T2 (map (\<lambda>i. map (\<lambda>d. (\<Sum>v\<leftarrow>take (nat (seq_len ! i)) (x ! i). v ! d)
                                      / real_of_int (seq_len ! i)) [0..<D]) [0..<N])) \<and>
         (\<forall>x'. has_shape3 N L D x' \<and> (\<forall>i<N. \<forall>l. int l < seq_len ! i \<longrightarrow> x' ! i ! l = x ! i ! l)
            \<longrightarrow> forward \<lparr>pooling_type = ''mean'', keepdim = False\<rparr> x' seq_len None mask_token
                = forward \<lparr>pooling_type = ''mean'', keepdim = False\<rparr> x seq_len None mask_token)"
proof (intro conjI allI impI)
  show "forward \<lparr>pooling_type = ''mean'', keepdim = False\<rparr> x seq_len None mask_token =
           Inr (T2 (map (\<lambda>i. map (\<lambda>d. (\<Sum>v\<leftarrow>take (nat (seq_len ! i)) (x ! i). v ! d)
                                      / real_of_int (seq_len ! i)) [0..<D]) [0..<N]))"
    by (rule forward_mean [OF shape len valid])
next
  fix x'
  assume a: "has_shape3 N L D x' \<and> (\<forall>i<N. \<forall>l. int l < seq_len ! i \<longrightarrow> x' ! i ! l = x ! i ! l)"
  then have shape': "has_shape3 N L D x'" by simp
  have "take (nat (seq_len ! i)) (x' ! i) = take (nat (seq_len ! i)) (x ! i)" if i: "i < N" for i
  proof -
    have "has_shape2 L D (x ! i)" "has_shape2 L D (x' ! i)"
      using shape shape' i by (simp_all add: has_shape3_def list_all_length)
    then have "length (x ! i) = L" "length (x' ! i) = L" by (simp_all add: has_shape2_def)
    moreover have "seq_len ! i \<le> int L" using valid i by simp
    ultimately have "nat (seq_len ! i) \<le> length (x' ! i)" "nat (seq_len ! i) \<le> length (x ! i)"
      by simp_all
    moreover have "\<And>l. l < nat (seq_len ! i) \<longrightarrow> x' ! i ! l = x ! i ! l"
      using a i by simp
    ultimately show ?thesis by (rule nth_take_lemma)
  qed
  then have "map (\<lambda>i. map (\<lambda>d. (\<Sum>v\<leftarrow>take (nat (seq_len ! i)) (x' ! i). v ! d)
                                      / real_of_int (seq_len ! i)) [0..<D]) [0..<N]
           = map (\<lambda>i. map (\<lambda>d. (\<Sum>v\<leftarrow>take (nat (seq_len ! i)) (x ! i). v ! d)
                                      / real_of_int (seq_len ! i)) [0..<D]) [0..<N]"
    by simp
  then show "forward \<lparr>pooling_type = ''mean'', keepdim = False\<rparr> x' seq_len None mask_token
                = forward \<lparr>pooling_type = ''mean'', keepdim = False\<rparr> x seq_len None mask_token"
    by (simp only: forward_mean [OF shape len valid] forward_mean [OF shape' len valid])
qed

theorem mean_pooling_is_masked_mean_witness:
  "has_shape3 2 3 2 [[[1, 2], [3, 4], [9, 9]], [[5, 6], [7, 7], [8, 8::real]]] \<and>
   forward \<lparr>pooling_type = ''mean'', keepdim = False\<rparr>
     [[[1, 2], [3, 4], [9, 9]], [[5, 6], [7, 7], [8, 8]]] [2, 3] None None
     = Inr (T2 [[2, 3], [20 / 3, 7]]) \<and>
   forward \<lparr>pooling_type = ''mean'', keepdim = False\<rparr>
     [[[1, 2], [3, 4], [0, -5]], [[5, 6], [7, 7], [8, 8]]] [2, 3] None None
     = forward \<lparr>pooling_type = ''mean'', keepdim = False\<rparr>
     [[[1, 2], [3, 4], [9, 9]], [[5, 6], [7, 7], [8, 8]]] [2, 3] None None"
proof -
  have shape: "has_shape3 2 3 2 [[[1, 2], [3, 4], [9, 9]], [[5, 6], [7, 7], [8, 8::real]]]"
    and shape': "has_shape3 2 3 2 [[[1, 2], [3, 4], [0, -5]], [[5, 6], [7, 7], [8, 8::real]]]"
    by (simp_all add: has_shape3_def has_shape2_def)
  have len: "length [2, 3::int] = 2" by simp
  have valid: "\<forall>i<2. 1 \<le> [2, 3::int] ! i \<and> [2, 3::int] ! i \<le> int 3"
    by (simp add: less_Suc_eq eval_nat_numeral)
  have agree: "\<forall>i<2. \<forall>l. int l < [2, 3::int] ! i \<longrightarrow>
      [[[1, 2], [3, 4], [0, -5]], [[5, 6], [7, 7], [8, 8::real]]] ! i ! l
      = [[[1, 2], [3, 4], [9, 9]], [[5, 6], [7, 7], [8, 8]]] ! i ! l"
    by (auto simp: less_Suc_eq eval_nat_numeral nth_Cons split: nat.splits)
  note inst = mean_pooling_is_masked_mean [OF shape len valid, of None]
  from inst have "forward \<lparr>pooling_type = ''mean'', keepdim = False\<rparr>
     [[[1, 2], [3, 4], [9, 9]], [[5, 6], [7, 7], [8, 8]]] [2, 3] None None
     = Inr (T2 [[2, 3], [20 / 3, 7]])"
    by (simp add: eval_nat_numeral upt_rec)
  moreover from inst shape' agree have "forward \<lparr>pooling_type = ''mean'', keepdim = False\<rparr>
     [[[1, 2], [3, 4], [0, -5]], [[5, 6], [7, 7], [8, 8]]] [2, 3] None None
     = forward \<lparr>pooling_type = ''mean'', keepdim = False\<rparr>
     [[[1, 2], [3, 4], [9, 9]], [[5, 6], [7, 7], [8, 8]]] [2, 3] None None"
    by blast
  ultimately show ?thesis using shape by simp
qed

subsection \<open>Last pooling\<close>

lemma apply_weight_nth:
  assumes "has_shape3 N L D x" "has_shape2 N L w" "i < N" "k < L"
  shows "apply_weight w x ! i ! k = map (\<lambda>e. w ! i ! k * e) (x ! i ! k)"
proof -
  have "length x = N" "length w = N" "length (x ! i) = L" "length (w ! i) = L"
    using assms by (simp_all add: has_shape3_def has_shape2_def list_all_length)
  then show ?thesis using assms(3,4) by (simp add: apply_weight_def)
qed

lemma last_row:
  assumes "length v = D"
  shows "map (\<lambda>d. v ! d) [0..<D] = v"
  using assms by (auto intro: nth_equalityI)

text \<open>
  C3, as the code has it. For a 3-D batch \<open>[N, L, D]\<close> with \<open>keepdim=False\<close> and
  \<open>1 <= seq_len[i] <= L\<close> for every \<open>i\<close>, \<open>'last'\<close> pooling returns a tensor
  \<open>[N, D]\<close>. With no weight its row \<open>i\<close> is the embedding at position
  \<open>seq_len[i] - 1\<close> of sequence \<open>i\<close>; with a weight of shape \<open>[N, L]\<close> its row \<open>i\<close>
  is that embedding multiplied by \<open>weight[i][seq_len[i] - 1]\<close>, since line 29 scales
  the batch before any pooling.
\<close>

theorem last_pooling_is_weighted_last_embedding:
  assumes shape: "has_shape3 N L D x" and len: "length seq_len = N"
    and valid: "\<forall>i<N. 1 \<le> seq_len ! i \<and> seq_len ! i \<le> int L"
    and wshape: "case weight of None \<Rightarrow> True | Some w \<Rightarrow> has_shape2 N L w"
  shows "forward \<lparr>pooling_type = ''last'', keepdim = False\<rparr> x seq_len weight mask_token =
           Inr (T2 (map (\<lambda>i. case weight of
                                 None \<Rightarrow> x ! i ! nat (seq_len ! i - 1)
                               | Some w \<Rightarrow> map (\<lambda>e. w ! i ! nat (seq_len ! i - 1) * e)
                                               (x ! i ! nat (seq_len ! i - 1)))
                        [0..<N]))"
proof (cases "N = 0")
  case True
  with shape len wshape show ?thesis
    by (cases weight) (simp_all add: forward_def has_shape3_def has_shape2_def size1_def apply_weight_def)
next
  case False
  then have N: "0 < N" by simp
  with valid have "1 \<le> seq_len ! 0 \<and> seq_len ! 0 \<le> int L" by blast
  then have L: "0 < L" by linarith
  note sz = sizes_of_shape3 [OF shape N L]
  have inrange: "\<not> (\<exists>s \<in> set seq_len. s - 1 < 0 \<or> int L \<le> s - 1)"
  proof
    assume "\<exists>s \<in> set seq_len. s - 1 < 0 \<or> int L \<le> s - 1"
    then obtain i where "i < N" "seq_len ! i - 1 < 0 \<or> int L \<le> seq_len ! i - 1"
      using len by (auto simp: in_set_conv_nth)
    with valid show False by force
  qed
  have pos: "nat (seq_len ! i - 1) < L" if "i < N" for i
    using valid that by force
  have vec: "length (x ! i ! k) = D" if "i < N" "k < L" for i k
    using shape that by (simp add: has_shape3_def has_shape2_def list_all_length)
  show ?thesis
  proof (cases weight)
    case None
    have "map2 (\<lambda>row s. map (\<lambda>d. row ! nat (s - 1) ! d) [0..<D]) x seq_len
          = map (\<lambda>i. x ! i ! nat (seq_len ! i - 1)) [0..<N]"
      using len sz(1) by (intro nth_equalityI) (simp_all add: last_row vec pos)
    with None inrange len show ?thesis by (simp add: forward_def sz)
  next
    case (Some w)
    with wshape have w: "has_shape2 N L w" by simp
    have lw: "length (apply_weight w x) = N"
      using w sz(1) by (simp add: apply_weight_def has_shape2_def)
    have "map2 (\<lambda>row s. map (\<lambda>d. row ! nat (s - 1) ! d) [0..<D]) (apply_weight w x) seq_len
          = map (\<lambda>i. map (\<lambda>e. w ! i ! nat (seq_len ! i - 1) * e)
                          (x ! i ! nat (seq_len ! i - 1))) [0..<N]"
      using len lw
      by (intro nth_equalityI)
         (simp_all add: apply_weight_nth [OF shape w] pos last_row vec)
    with Some inrange len w show ?thesis by (simp add: forward_def sz)
  qed
qed

theorem last_pooling_is_weighted_last_embedding_witness:
  "forward \<lparr>pooling_type = ''last'', keepdim = False\<rparr>
     [[[1, 2], [3, 4], [9, 9]], [[5, 6], [7, 7], [8, 8]]] [2, 3] None None
     = Inr (T2 [[3, 4], [8, 8]]) \<and>
   forward \<lparr>pooling_type = ''last'', keepdim = False\<rparr>
     [[[1, 2], [3, 4], [9, 9]], [[5, 6], [7, 7], [8, 8]]] [2, 3]
     (Some [[1, 2, 1], [1, 1, 1 / 2]]) None
     = Inr (T2 [[6, 8], [4, 4]])"
proof -
  have shape: "has_shape3 2 3 2 [[[1, 2], [3, 4], [9, 9]], [[5, 6], [7, 7], [8, 8::real]]]"
    by (simp add: has_shape3_def has_shape2_def)
  have len: "length [2, 3::int] = 2" by simp
  have valid: "\<forall>i<2. 1 \<le> [2, 3::int] ! i \<and> [2, 3::int] ! i \<le> int 3"
    by (simp add: less_Suc_eq eval_nat_numeral)
  have w0: "case None :: real list list option of None \<Rightarrow> True | Some w \<Rightarrow> has_shape2 2 3 w"
    by simp
  have w1: "case Some [[1, 2, 1], [1, 1, 1 / 2::real]] of None \<Rightarrow> True | Some w \<Rightarrow> has_shape2 2 3 w"
    by (simp add: has_shape2_def)
  show ?thesis
    using last_pooling_is_weighted_last_embedding [OF shape len valid w0, of None]
          last_pooling_is_weighted_last_embedding [OF shape len valid w1, of None]
    by (simp add: eval_nat_numeral upt_rec)
qed

text \<open>
  C3 as stated speaks of every call with \<open>keepdim=False\<close> and valid lengths. A call
  that passes a weight does not return the embedding at position \<open>seq_len[i] - 1\<close>:
  with the single embedding \<open>[1]\<close> and the weight 2 the row returned is \<open>[2]\<close>.
\<close>

theorem last_pooling_weight_counterexample:
  "has_shape3 1 1 1 [[[1::real]]] \<and> 1 \<le> [1::int] ! 0 \<and> [1::int] ! 0 \<le> 1 \<and>
   forward \<lparr>pooling_type = ''last'', keepdim = False\<rparr> [[[1]]] [1] (Some [[2]]) None
     = Inr (T2 [[2]]) \<and>
   [[[1::real]]] ! 0 ! nat ([1] ! 0 - 1) = [1] \<and> [2] \<noteq> [1::real]"
  by (simp add: forward_def has_shape3_def has_shape2_def size1_def size2_def apply_weight_def)

subsection \<open>Max pooling\<close>

text \<open>
  C4. With \<open>keepdim=False\<close>, \<open>'max'\<close> pooling should return the tensor \<open>[N, D]\<close> of
  the elementwise maxima over the masked positions. Line 51 returns what
  \<open>Tensor.max(dim=1)\<close> returns, the pair of the maxima and of their positions, not the
  tensor of the maxima: on one sequence of length 2 in a batch padded to 3, the result
  is the pair \<open>([[2, 5]], [[1, 0]])\<close>.
\<close>

theorem max_pooling_returns_values_and_indices:
  "forward \<lparr>pooling_type = ''max'', keepdim = False\<rparr> [[[1, 5], [2, 4], [7, 7]]] [2] None None
     = Inr (MaxResult [[2, 5]] [[1, 0]])"
  by (simp add: forward_def size1_def size2_def seq_mask_def arange_def masked_fill_def
        max_values_def max_indices_def column_def eval_nat_numeral upt_rec)

text \<open>
  With \<open>keepdim=True\<close>, line 56 calls \<open>unsqueeze\<close> on that pair, which has no such
  attribute: the code expects a tensor there.
\<close>

lemma max_pooling_keepdim_raises:
  "forward \<lparr>pooling_type = ''max'', keepdim = True\<rparr> [[[1, 5], [2, 4], [7, 7]]] [2] None None
     = Inl AttributeError"
  by (simp add: forward_def size1_def size2_def)

text \<open>
  On no input does \<open>'max'\<close> pooling return a 2-D tensor.
\<close>

lemma max_pooling_never_returns_a_tensor:
  "forward \<lparr>pooling_type = ''max'', keepdim = kd\<rparr> x seq_len weight mask_token \<noteq> Inr (T2 y)"
  by (simp add: forward_def Let_def)

lemma list_max_fold: "list_max m ys = fold max ys m"
  by (induction ys arbitrary: m) (simp_all add: max.commute)

lemma list_max_Max: "list_max c cs = Max (set (c # cs))"
  by (simp add: list_max_fold Max.set_eq_fold del: set_simps)

lemma set_map_nth: "set (map f xs) = (\<lambda>l. f (xs ! l)) ` {..<length xs}"
  by (force simp: in_set_conv_nth image_iff)

lemma masked_row_nth:
  assumes "has_shape2 L D row" "l < L" "d < D"
  shows "(take k row @ replicate (L - k) (replicate D (0::real))) ! l ! d =
         (if k \<le> l then 0 else row ! l ! d)"
  using assms by (auto simp: has_shape2_def nth_append)

lemma max_values_masked:
  assumes row: "has_shape2 L D row" and L: "0 < L" and k: "k \<le> L"
  shows "max_values D (take k row @ replicate (L - k) (replicate D 0)) =
         map (\<lambda>d. Max ((\<lambda>l. if k \<le> l then 0 else row ! l ! d) ` {..<L})) [0..<D]"
proof -
  let ?mr = "take k row @ replicate (L - k) (replicate D (0::real))"
  have len: "length ?mr = L" using row k by (simp add: has_shape2_def)
  have col: "set (column ?mr d) = (\<lambda>l. if k \<le> l then 0 else row ! l ! d) ` {..<L}" if d: "d < D" for d
  proof -
    have "set (column ?mr d) = (\<lambda>l. ?mr ! l ! d) ` {..<L}"
      unfolding column_def set_map_nth len ..
    also have "\<dots> = (\<lambda>l. if k \<le> l then 0 else row ! l ! d) ` {..<L}"
      using masked_row_nth [OF row _ d] by (intro image_cong) auto
    finally show ?thesis .
  qed
  have "(case column ?mr d of [] \<Rightarrow> 0 | c # cs \<Rightarrow> list_max c cs)
        = Max ((\<lambda>l. if k \<le> l then 0 else row ! l ! d) ` {..<L})" if d: "d < D" for d
  proof (cases "column ?mr d")
    case Nil
    then have "length (column ?mr d) = 0" by simp
    then show ?thesis using len L by (simp add: column_def)
  next
    case (Cons c cs)
    then show ?thesis using col [OF d] by (simp add: list_max_Max del: set_simps)
  qed
  then show ?thesis by (simp add: max_values_def)
qed

text \<open>
  The first component of the pair is the tensor of the maxima over the masked positions,
  with no weight and valid lengths: what is missing on line 51 is the selection of
  \<open>values\<close>.
\<close>

lemma forward_max_values:
  assumes shape: "has_shape3 N L D x" and len: "length seq_len = N"
    and valid: "\<forall>i<N. 1 \<le> seq_len ! i \<and> seq_len ! i \<le> int L"
  shows "\<exists>indices.
     forward \<lparr>pooling_type = ''max'', keepdim = False\<rparr> x seq_len None mask_token =
     Inr (MaxResult
            (map (\<lambda>i. map (\<lambda>d. Max ((\<lambda>l. if seq_len ! i \<le> int l then 0 else x ! i ! l ! d) ` {..<L}))
                          [0..<D]) [0..<N])
            indices)"
proof (cases "N = 0")
  case True
  with shape len show ?thesis
    by (simp add: forward_def has_shape3_def masked_fill_def seq_mask_def size1_def)
next
  case False
  then have N: "0 < N" by simp
  with valid have "1 \<le> seq_len ! 0 \<and> seq_len ! 0 \<le> int L" by blast
  then have L: "0 < L" by linarith
  note sz = sizes_of_shape3 [OF shape N L]
  have valid0: "\<forall>i<N. 0 \<le> seq_len ! i \<and> seq_len ! i \<le> int L" using valid by force
  have rows: "\<And>i. i < N \<Longrightarrow> has_shape2 L D (x ! i)"
    using shape by (simp add: has_shape3_def list_all_length)
  have vals: "map (max_values D) (masked_fill x (seq_mask L D seq_len) 0) =
        map (\<lambda>i. map (\<lambda>d. Max ((\<lambda>l. if seq_len ! i \<le> int l then 0 else x ! i ! l ! d) ` {..<L}))
                          [0..<D]) [0..<N]"
    unfolding masked_fill_seq_mask [OF shape len valid0]
  proof (rule nth_equalityI)
    fix i
    assume "i < length (map (max_values D) (map (\<lambda>i. take (nat (seq_len ! i)) (x ! i)
                    @ replicate (L - nat (seq_len ! i)) (replicate D 0)) [0..<N]))"
    then have i: "i < N" by simp
    with valid0 have k0: "0 \<le> seq_len ! i \<and> seq_len ! i \<le> int L" by blast
    then have k: "nat (seq_len ! i) \<le> L" "0 \<le> seq_len ! i" by linarith+
    have cond: "(nat (seq_len ! i) \<le> l) = (seq_len ! i \<le> int l)" for l using k(2) by linarith
    show "map (max_values D) (map (\<lambda>i. take (nat (seq_len ! i)) (x ! i)
                    @ replicate (L - nat (seq_len ! i)) (replicate D 0)) [0..<N]) ! i =
        map (\<lambda>i. map (\<lambda>d. Max ((\<lambda>l. if seq_len ! i \<le> int l then 0 else x ! i ! l ! d) ` {..<L}))
                          [0..<D]) [0..<N] ! i"
      using i max_values_masked [OF rows [OF i] L k(1)] by (simp add: cond)
  qed simp
  show ?thesis using len L by (simp add: forward_def sz vals)
qed

section \<open>Properties of BaseModel\<close>

subsection \<open>Negative sampling\<close>

lemma set_zero_props:
  assumes "set_zero w v = Inr w'"
  shows "length w' = length w"
    and "\<And>j. j < length w \<Longrightarrow> w ! j = 0 \<Longrightarrow> w' ! j = 0"
    and "0 \<le> v \<Longrightarrow> nat v < length w \<and> w' ! nat v = 0"
  using assms
  by (auto simp: set_zero_def Let_def nth_list_update split: if_splits)

lemma set_zeros_props:
  assumes "set_zeros w vs = Inr w'"
  shows "length w' = length w \<and> (\<forall>j<length w. w ! j = 0 \<longrightarrow> w' ! j = 0) \<and>
         (\<forall>v\<in>set vs. 0 \<le> v \<longrightarrow> nat v < length w \<and> w' ! nat v = 0)"
  using assms
proof (induction vs arbitrary: w)
  case Nil
  then show ?case by simp
next
  case (Cons v vs)
  then obtain w1 where w1: "set_zero w v = Inr w1" and rest: "set_zeros w1 vs = Inr w'"
    by (auto split: sum.splits)
  note p1 = set_zero_props [OF w1]
  note IH = Cons.IH [OF rest]
  show ?case
  proof (intro conjI allI impI ballI)
    show "length w' = length w" using IH p1(1) by simp
  next
    fix j assume "j < length w" "w ! j = 0"
    then show "w' ! j = 0" using IH p1(1) p1(2) by simp
  next
    fix u assume u: "u \<in> set (v # vs)" "0 \<le> u"
    show "nat u < length w" using u IH p1(1) p1(3) by auto
    show "w' ! nat u = 0"
    proof (cases "u = v")
      case True
      then have "nat v < length w \<and> w1 ! nat v = 0" using p1(3) u(2) by simp
      then show ?thesis using IH p1(1) True by simp
    next
      case False
      then show ?thesis using u IH by auto
    qed
  qed
qed

lemma index_put_zero_props:
  assumes "index_put_zero ws us = Inr ws'"
  shows "length ws' = length us \<and> length ws = length us \<and>
         (\<forall>i<length us. set_zeros (ws ! i) (us ! i) = Inr (ws' ! i))"
  using assms
proof (induction ws us arbitrary: ws' rule: index_put_zero.induct)
  case 1
  then show ?case by simp
next
  case (2 w ws u us)
  then obtain w1 ws1 where a: "set_zeros w u = Inr w1" "index_put_zero ws us = Inr ws1" "ws' = w1 # ws1"
    by (auto split: sum.splits)
  from "2.IH" [OF a(1) a(2)] a show ?case
    by (auto simp: nth_Cons split: nat.splits)
qed simp_all

lemma support_props: "j \<in> set (support w) \<Longrightarrow> j < length w \<and> 0 < w ! j"
  by (simp add: support_def)

lemma multinomial_props:
  assumes "multinomial weight n rnd = Inr neg_idx"
  shows "0 < n" "length neg_idx = length weight"
    and "\<And>i. i < length weight \<Longrightarrow> length (neg_idx ! i) = nat n"
    and "\<And>i j. i < length weight \<Longrightarrow> j \<in> set (neg_idx ! i) \<Longrightarrow> j < length (weight ! i) \<and> 0 < weight ! i ! j"
proof -
  from assms have n: "0 < n" and ne: "\<forall>w\<in>set weight. support w \<noteq> []"
    and eq: "neg_idx = map (\<lambda>i. map (\<lambda>j. support (weight ! i) ! (rnd i j mod length (support (weight ! i))))
                            [0..<nat n]) [0..<length weight]"
    by (auto simp: multinomial_def split: if_splits)
  show "0 < n" by (rule n)
  show "length neg_idx = length weight" using eq by simp
  show "\<And>i. i < length weight \<Longrightarrow> length (neg_idx ! i) = nat n" using eq by simp
  fix i j assume i: "i < length weight" and j: "j \<in> set (neg_idx ! i)"
  from i ne have "support (weight ! i) \<noteq> []" by simp
  then have "\<And>r. support (weight ! i) ! (r mod length (support (weight ! i))) \<in> set (support (weight ! i))"
    by simp
  with j i eq have "j \<in> set (support (weight ! i))" by auto
  then show "j < length (weight ! i) \<and> 0 < weight ! i ! j" by (rule support_props)
qed

lemma reshape3_props:
  assumes "reshape3 x m k = Inr y" and "\<forall>row\<in>set x. length row = nat (k * m)"
  shows "has_shape3 (length x) (nat m) (nat k) y"
    and "\<And>i row j. i < length x \<Longrightarrow> row \<in> set (y ! i) \<Longrightarrow> j \<in> set row \<Longrightarrow> j \<in> set (x ! i)"
proof -
  from assms(1) have m: "0 < m" and k: "0 < k"
    and y: "y = map (\<lambda>row. map (\<lambda>t. take (nat k) (drop (t * nat k) row)) [0..<nat m]) x"
    by (auto simp: reshape3_def split: if_splits)
  have km: "nat (k * m) = nat m * nat k" using m k by (simp add: nat_mult_distrib mult.commute)
  have chunk: "min (length row - t * nat k) (nat k) = nat k"
    if "row \<in> set x" "t < nat m" for row t
  proof -
    have len: "length row = nat m * nat k" using that(1) assms(2) km by simp
    have "(t + 1) * nat k \<le> nat m * nat k" using that(2) by (intro mult_le_mono1) simp
    then have "t * nat k + nat k \<le> length row" using len by (simp add: algebra_simps)
    then have "nat k \<le> length row - t * nat k" by linarith
    then show ?thesis by simp
  qed
  show "has_shape3 (length x) (nat m) (nat k) y"
    unfolding y by (auto simp: has_shape3_def has_shape2_def list_all_iff chunk)
  fix i row j assume "i < length x" "row \<in> set (y ! i)" "j \<in> set row"
  then show "j \<in> set (x ! i)"
    unfolding y by (auto dest!: in_set_takeD in_set_dropD)
qed

text \<open>
  C1. For every training batch, whatever the random draws, the tensor that
  \<open>_neg_sampling\<close> returns has shape \<open>[batch_size, max_seq_len, num_neg]\<close>, and every
  index in row \<open>i\<close> is an item the user has not interacted with: it does not occur in
  \<open>user_seq[i]\<close>, it is never the padding item 0, and it is an item id.
\<close>

theorem neg_sampling_draws_non_interacted_items:
  assumes seq: "batch ''user_seq'' = Some (F2 user_seq)"
    and num_neg: "getitem (config self) ''num_neg'' = Inr (PInt num_neg)"
    and ret: "neg_sampling self batch rnd = Inr neg_idx"
  shows "has_shape3 (length user_seq) (nat (max_seq_len self)) (nat num_neg) neg_idx \<and>
         (\<forall>i<length user_seq. \<forall>row\<in>set (neg_idx ! i). \<forall>j\<in>set row.
            int j \<notin> set (user_seq ! i) \<and> j \<noteq> 0 \<and> j < num_items self)"
proof -
  let ?ones = "replicate (length user_seq) (replicate (num_items self) (1::real))"
  from ret seq num_neg obtain weight0 drawn where
    w0: "index_put_zero ?ones user_seq = Inr weight0" and
    items: "num_items self \<noteq> 0" and
    drawn: "multinomial (map (\<lambda>w. w[0 := 0]) weight0) (num_neg * max_seq_len self) rnd = Inr drawn" and
    resh: "reshape3 drawn (max_seq_len self) num_neg = Inr neg_idx"
    by (auto simp: neg_sampling_def Let_def split: sum.splits if_splits)
  let ?B = "length user_seq"
  let ?weight = "map (\<lambda>w. w[0 := 0]) weight0"
  note ip = index_put_zero_props [OF w0]
  note mn = multinomial_props [OF drawn]
  have lw: "length ?weight = ?B" using ip by simp
  have rows: "\<forall>row\<in>set drawn. length row = nat (num_neg * max_seq_len self)"
    using mn(2,3) by (auto simp: in_set_conv_nth)
  note rs = reshape3_props [OF resh rows]
  have ld: "length drawn = ?B" using mn(2) lw by simp
  have "int j \<notin> set (user_seq ! i) \<and> j \<noteq> 0 \<and> j < num_items self"
    if i: "i < ?B" and row: "row \<in> set (neg_idx ! i)" and j: "j \<in> set row" for i row j
  proof -
    have "j \<in> set (drawn ! i)" using rs(2) i row j ld by simp
    then have pos: "j < length (?weight ! i)" "0 < ?weight ! i ! j"
      using mn(4) [of i j] i lw by simp_all
    from ip i have sz: "set_zeros (?ones ! i) (user_seq ! i) = Inr (weight0 ! i)" by simp
    note zp = set_zeros_props [OF sz]
    have lwi: "length (weight0 ! i) = num_items self" using zp i by simp
    have wi: "?weight ! i = (weight0 ! i)[0 := 0]" using i ip by simp
    have j0: "j \<noteq> 0"
    proof
      assume "j = 0"
      with pos wi lwi items show False by simp
    qed
    have jn: "j < num_items self" using pos(1) wi lwi by simp
    have "int j \<notin> set (user_seq ! i)"
    proof
      assume "int j \<in> set (user_seq ! i)"
      with zp have "weight0 ! i ! nat (int j) = 0" by force
      with pos(2) wi j0 show False by simp
    qed
    with j0 jn show ?thesis by simp
  qed
  then have "\<forall>i<length user_seq. \<forall>row\<in>set (neg_idx ! i). \<forall>j\<in>set row.
            int j \<notin> set (user_seq ! i) \<and> j \<noteq> 0 \<and> j < num_items self" by blast
  with rs(1) ld show ?thesis by simp
qed

text \<open>The sampling of a batch of two users over five items, evaluated step by step.\<close>

lemma example_index_put_zero: "index_put_zero (replicate (length [[1, 2, 0], [3, 0, 0::int]]) (replicate 5 1)) [[1, 2, 0], [3, 0, 0]]
   = Inr [[0, 0, 0, 1, 1], [0, 1, 1, 0, 1]]"
  by (simp add: set_zero_def eval_nat_numeral)

lemma example_support: "support [0, 0, 0, 1, 1] = [3, 4]" "support [0, 1, 1, 0, 1] = [1, 2, 4]"
  by (simp_all add: support_def eval_nat_numeral)

lemma example_few_categories: "length w \<le> 5 \<Longrightarrow> \<not> 2 ^ 24 < length w"
  by simp

lemma example_multinomial: "multinomial [[0, 0, 0, 1, 1], [0, 1, 1, 0, 1]] 4 (\<lambda>i j. 0) = Inr [[3, 3, 3, 3], [1, 1, 1, 1]]"
proof -
  have u: "[0..<4] = [0, 1, 2, 3::nat]" "[0..<Suc (Suc 0)] = [0, 1]" by (simp_all add: upt_rec)
  show ?thesis
    unfolding multinomial_def by (simp add: example_support example_few_categories u)
qed

lemma example_reshape3: "reshape3 [[3, 3, 3, 3], [1, 1, 1, 1]] 2 2 = Inr [[[3, 3], [3, 3]], [[1, 1], [1, 1]]]"
  by (simp add: reshape3_def eval_nat_numeral)


theorem neg_sampling_draws_non_interacted_items_witness:
  "neg_sampling
     \<lparr>config = PDict [(''num_neg'', PInt 2)], ckpt_path = None, num_items = 5, embed_dim = 1,
      max_seq_len = 2, item_embedding = [[0], [1], [2], [3], [4]], parameters = [],
      domain_item_mapping = [], eval_domain = None\<rparr>
     [''user_seq'' \<mapsto> F2 [[1, 2, 0], [3, 0, 0]]] (\<lambda>i j. 0)
     = Inr [[[3, 3], [3, 3]], [[1, 1], [1, 1]]] \<and>
   has_shape3 2 2 2 [[[3, 3], [3, 3]], [[1, 1], [1, 1::nat]]] \<and>
   int 3 \<notin> set ([[1, 2, 0], [3, 0, 0]] ! 0) \<and> int 1 \<notin> set ([[1, 2, 0], [3, 0, 0]] ! 1)"
proof -
  let ?self = "\<lparr>config = PDict [(''num_neg'', PInt 2)], ckpt_path = None, num_items = 5, embed_dim = 1,
      max_seq_len = 2, item_embedding = [[0], [1], [2], [3], [4]], parameters = [],
      domain_item_mapping = [], eval_domain = None\<rparr>"
  let ?batch = "[''user_seq'' \<mapsto> F2 [[1, 2, 0], [3, 0, 0]]]"
  have seq: "?batch ''user_seq'' = Some (F2 [[1, 2, 0], [3, 0, 0]])" by simp
  have num_neg: "getitem (config ?self) ''num_neg'' = Inr (PInt 2)" by (simp add: getitem_def)
  have ret: "neg_sampling ?self ?batch (\<lambda>i j. 0) = Inr [[[3, 3], [3, 3]], [[1, 1], [1, 1]]]"
    using example_index_put_zero example_multinomial example_reshape3 by (simp add: neg_sampling_def getitem_def)
  from neg_sampling_draws_non_interacted_items [OF seq num_neg ret] ret
  show ?thesis by (simp add: numeral_2_eq_2)
qed

subsection \<open>Top-k recommendation\<close>

lemma score_le_NegInf: "score_le a NegInf \<longleftrightarrow> a = NegInf"
  by (cases a) simp_all

lemma topk_avoids_neg_inf:
  assumes ok: "torch_topk_ok row k idx"
    and enough: "k \<le> length (filter (\<lambda>j. row ! j \<noteq> NegInf) [0..<length row])"
    and j: "j \<in> set idx"
  shows "row ! j \<noteq> NegInf"
proof
  assume none: "row ! j = NegInf"
  let ?U = "set (filter (\<lambda>j. row ! j \<noteq> NegInf) [0..<length row])"
  from ok have len: "length idx = k" and dist: "distinct idx"
    and best: "\<forall>a\<in>set idx. \<forall>b<length row. b \<in> set idx \<or> score_le (row ! b) (row ! a)"
    by (auto simp: torch_topk_ok_def list_all_iff)
  have "?U \<subseteq> set idx - {j}"
  proof
    fix b assume b: "b \<in> ?U"
    then have "b < length row" "row ! b \<noteq> NegInf" by simp_all
    from best j \<open>b < length row\<close> have "b \<in> set idx \<or> score_le (row ! b) (row ! j)" by blast
    with none \<open>row ! b \<noteq> NegInf\<close> have "b \<in> set idx" by (auto simp: score_le_NegInf)
    moreover from b none have "b \<noteq> j" by auto
    ultimately show "b \<in> set idx - {j}" by simp
  qed
  then have "card ?U \<le> card (set idx - {j})" by (intro card_mono) simp_all
  also have "\<dots> = k - 1" using j dist len by (simp add: distinct_card)
  also have "\<dots> < k" using j len by (cases idx) auto
  finally have "card ?U < k" .
  moreover have "card ?U = length (filter (\<lambda>j. row ! j \<noteq> NegInf) [0..<length row])"
    by (intro distinct_card) simp
  ultimately show False using enough by simp
qed

lemma scatter_props:
  assumes "scatter rows us = Inr rows'"
  shows "length rows' = length rows \<and> length us \<le> length rows \<and>
         (\<forall>i<length rows. if i < length us then scatter_row (rows ! i) (us ! i) = Inr (rows' ! i)
                           else rows' ! i = rows ! i)"
  using assms
proof (induction rows us arbitrary: rows' rule: scatter.induct)
  case (1 rows)
  then show ?case by simp
next
  case (2 u us)
  then show ?case by simp
next
  case (3 r rs u us)
  then obtain r1 rs1 where a: "scatter_row r u = Inr r1" "scatter rs us = Inr rs1" "rows' = r1 # rs1"
    by (auto split: sum.splits)
  from "3.IH" [OF a(1) a(2)] a show ?case
    by (auto simp: nth_Cons split: nat.splits)
qed

lemma scatter_row_props:
  assumes "scatter_row row idx = Inr row'"
  shows "length row' = length row"
    and "\<And>j. j < length row \<Longrightarrow> row' ! j = (if int j \<in> set idx then NegInf else row ! j)"
  using assms by (auto simp: scatter_row_def split: if_splits)

lemma masked_score_props:
  assumes ms: "masked_score self query (Some user_h) = Inr masked"
    and dom: "eval_domain self = Some domain" "map_of (domain_item_mapping self) domain = Some items"
  shows "length masked = length query"
    and "\<And>i. i < length masked \<Longrightarrow> length (masked ! i) = num_items self"
    and "\<And>i j. i < length masked \<Longrightarrow> j < num_items self \<Longrightarrow>
           masked ! i ! j \<noteq> NegInf \<longleftrightarrow>
           (j \<in> set items \<and> int j \<notin> set (history_of user_h i)) \<and>
           dot (query ! i) (item_embedding self ! j) \<noteq> NegInf"
proof -
  let ?n = "num_items self"
  let ?rs = "matmul_T query (item_embedding self)"
  let ?dm = "map (\<lambda>j. j \<notin> set items) [0..<?n]"
  let ?m0 = "map (\<lambda>row. map2 (\<lambda>m s. if m then NegInf else s) ?dm row) ?rs"
  from ms dom have W: "has_shape2 ?n (embed_dim self) (item_embedding self)"
    and sc: "scatter ?m0 (map pad_history user_h) = Inr masked"
    by (auto simp: masked_score_def Let_def domain_mask_def split: if_splits sum.splits)
  note sp = scatter_props [OF sc]
  have lW: "length (item_embedding self) = ?n" using W by (simp add: has_shape2_def)
  have l0: "length ?m0 = length query" by (simp add: matmul_T_def)
  have row0: "length (?m0 ! i) = ?n" if "i < length query" for i
    using that lW by (simp add: matmul_T_def)
  have val0: "?m0 ! i ! j = (if j \<notin> set items then NegInf
                             else dot (query ! i) (item_embedding self ! j))"
    if "i < length query" "j < ?n" for i j
    using that lW by (simp add: matmul_T_def)
  show lm: "length masked = length query" using sp l0 by simp
  have rowi: "length (masked ! i) = ?n \<and>
      (\<forall>j<?n. masked ! i ! j \<noteq> NegInf \<longleftrightarrow>
           (j \<in> set items \<and> int j \<notin> set (history_of user_h i)) \<and>
           dot (query ! i) (item_embedding self ! j) \<noteq> NegInf)"
    if i: "i < length masked" for i
  proof (cases "i < length user_h")
    case True
    with sp i lm l0 have "scatter_row (?m0 ! i) (pad_history (user_h ! i)) = Inr (masked ! i)"
      by (auto split: if_splits)
    note rp = scatter_row_props [OF this]
    from i lm have iq: "i < length query" by simp
    show ?thesis using rp(1) rp(2) row0 [OF iq] val0 [OF iq] True
      by (auto simp: history_of_def)
  next
    case False
    with sp i lm l0 have "masked ! i = ?m0 ! i" by (auto split: if_splits)
    moreover from i lm have iq: "i < length query" by simp
    ultimately show ?thesis using row0 [OF iq] val0 [OF iq] False
      by (auto simp: history_of_def)
  qed
  show "\<And>i. i < length masked \<Longrightarrow> length (masked ! i) = num_items self" using rowi by blast
  show "\<And>i j. i < length masked \<Longrightarrow> j < num_items self \<Longrightarrow>
           masked ! i ! j \<noteq> NegInf \<longleftrightarrow>
           (j \<in> set items \<and> int j \<notin> set (history_of user_h i)) \<and>
           dot (query ! i) (item_embedding self ! j) \<noteq> NegInf"
    using rowi by blast
qed

text \<open>
  C9, as the code has it. Let \<open>items\<close> be the item set of the selected evaluation
  domain. If \<open>topk\<close> returns and, in every row, \<open>k\<close> does not exceed the number of
  candidates that no mask covers (the items of the domain that are not in the user's
  history, \<open>-1\<close> read as the padding id 0) and whose score is not \<open>-inf\<close>, then no
  returned item is in the user's history and none is outside the domain.
\<close>

theorem topk_excludes_masked_items_when_scores_exceed_neg_inf:
  assumes dom: "eval_domain self = Some domain" "map_of (domain_item_mapping self) domain = Some items"
    and fwd: "model_forward batch = Inr query"
    and ret: "topk self model_forward batch k (Some user_h) (Inr (score, topk_items))"
    and enough: "\<forall>i<length topk_items.
        nat k \<le> length (scored_candidates self (query ! i) items (history_of user_h i))"
  shows "\<forall>i<length topk_items. \<forall>j\<in>set (topk_items ! i).
           j \<in> set items \<and> int j \<notin> set (history_of user_h i)"
proof (intro allI impI ballI)
  fix i j assume i: "i < length topk_items" and j: "j \<in> set (topk_items ! i)"
  from ret fwd obtain masked where
    ms: "masked_score self query (Some user_h) = Inr masked" and
    all: "list_all2 (\<lambda>row idx. torch_topk_ok row (nat k) idx) masked topk_items"
    by (auto simp: topk_def split: sum.splits if_splits)
  note mp = masked_score_props [OF ms dom]
  from all have lens: "length masked = length topk_items"
    and ok: "torch_topk_ok (masked ! i) (nat k) (topk_items ! i)"
    using i by (auto simp: list_all2_conv_all_nth)
  from i lens have im: "i < length masked" by simp
  have lrow: "length (masked ! i) = num_items self" using mp(2) im by simp
  have same: "filter (\<lambda>j. masked ! i ! j \<noteq> NegInf) [0..<length (masked ! i)]
        = scored_candidates self (query ! i) items (history_of user_h i)"
    unfolding lrow scored_candidates_def candidates_def filter_filter
    using mp(3) [OF im] by (intro filter_cong) auto
  from enough i have "nat k \<le> length (filter (\<lambda>j. masked ! i ! j \<noteq> NegInf) [0..<length (masked ! i)])"
    unfolding same by simp
  from topk_avoids_neg_inf [OF ok this j] have nn: "masked ! i ! j \<noteq> NegInf" .
  from ok j have "j < length (masked ! i)" by (auto simp: torch_topk_ok_def list_all_iff)
  then have "j < num_items self" using lrow by simp
  with mp(3) [OF im this] nn
  show "j \<in> set items \<and> int j \<notin> set (history_of user_h i)"
    by blast
qed

text \<open>
  Small products stay finite, and the product of \<open>-2^100\<close> and \<open>2^100\<close> overflows.
\<close>

lemma float32_overflow_bounds: "2 ^ 127 \<le> float32_overflow" "float32_overflow \<le> 2 ^ 128"
proof -
  have a: "(1::real) \<le> 2 - 1 / 2 ^ 24" and b: "(2::real) - 1 / 2 ^ 24 \<le> 2" by simp_all
  have p: "(0::real) \<le> 2 ^ 127" by (rule zero_le_power) simp
  from mult_right_mono [OF a p] show "2 ^ 127 \<le> float32_overflow"
    by (simp only: float32_overflow_def mult_1)
  have "(2::real) * 2 ^ 127 = 2 ^ Suc 127" by (simp only: power_Suc)
  also have "Suc 127 = 128" by simp
  finally have "(2::real) * 2 ^ 127 = 2 ^ 128" .
  with mult_right_mono [OF b p] show "float32_overflow \<le> 2 ^ 128"
    by (simp only: float32_overflow_def)
qed

lemma f32_small: "\<bar>x\<bar> \<le> 1000 \<Longrightarrow> f32 x = Fin x"
proof -
  assume a: "\<bar>x\<bar> \<le> 1000"
  have "(2::real) ^ 10 \<le> 2 ^ 127" by (rule power_increasing) simp_all
  moreover have "(1000::real) < 2 ^ 10" by simp
  ultimately have "(1000::real) < 2 ^ 127" by linarith
  with a float32_overflow_bounds(1) have "x < float32_overflow" "- float32_overflow < x"
    by linarith+
  then show ?thesis by (simp only: f32_def not_le [symmetric] if_False)
qed

lemma f32_overflows: "f32 (- (2 ^ 100 * 2 ^ 100)) = NegInf"
proof -
  have "(2::real) ^ (100 + 100) = 2 ^ 100 * 2 ^ 100" by (rule power_add)
  moreover have "(100::nat) + 100 = 200" by simp
  ultimately have sq: "(2::real) ^ 100 * 2 ^ 100 = 2 ^ 200" by (simp only:)
  have "(2 :: real) ^ 128 \<le> 2 ^ 200" by (rule power_increasing) simp_all
  with float32_overflow_bounds(2) have le: "- (2 ^ 100 * 2 ^ 100) \<le> - float32_overflow"
    unfolding sq by linarith
  have "(0::real) < 2 ^ 127" by (rule zero_less_power) simp
  with float32_overflow_bounds(1) have "0 < float32_overflow" by linarith
  with le have "\<not> float32_overflow \<le> - (2 ^ 100 * 2 ^ 100)" by linarith
  with le show ?thesis by (simp only: f32_def if_True if_False)
qed

lemma example_dot_small: "\<bar>w\<bar> \<le> 1000 \<Longrightarrow> dot [1] [w] = Fin w"
  by (simp add: dot_def f32_small)

text \<open>
  One user, four items, of which three are of domain A; the history holds item 2 and a
  padding entry.
\<close>

lemma example_masked_score:
  "masked_score
     \<lparr>config = PDict [], ckpt_path = None, num_items = 4, embed_dim = 1,
      max_seq_len = 2, item_embedding = [[0], [1], [2], [3]], parameters = [],
      domain_item_mapping = [(''A'', [1, 2, 3])], eval_domain = Some ''A''\<rparr>
     [[1]] (Some [[2, - 1]])
   = Inr [[NegInf, Fin 1, NegInf, Fin 3]]"
proof -
  have u: "[0..<4] = [0, 1, 2, 3::nat]" by (simp add: upt_rec)
  show ?thesis
    by (simp add: masked_score_def has_shape2_def matmul_T_def domain_mask_def pad_history_def
          scatter_row_def u example_dot_small)
qed

lemma example_topk_ok: "torch_topk_ok [NegInf, Fin 1, NegInf, Fin 3] 2 [3, 1]"
proof -
  have u: "[0..<4] = [0, 1, 2, 3::nat]" "[0..<2] = [0, 1::nat]" by (simp_all add: upt_rec)
  show ?thesis
    by (simp add: torch_topk_ok_def u)
qed

theorem topk_excludes_masked_items_when_scores_exceed_neg_inf_witness:
  "topk \<lparr>config = PDict [], ckpt_path = None, num_items = 4, embed_dim = 1,
      max_seq_len = 2, item_embedding = [[0], [1], [2], [3]], parameters = [],
      domain_item_mapping = [(''A'', [1, 2, 3])], eval_domain = Some ''A''\<rparr>
     (\<lambda>b. Inr [[1]]) Map.empty 2 (Some [[2, - 1]]) (Inr ([[Fin 3, Fin 1]], [[3, 1]])) \<and>
   scored_candidates \<lparr>config = PDict [], ckpt_path = None, num_items = 4, embed_dim = 1,
      max_seq_len = 2, item_embedding = [[0], [1], [2], [3]], parameters = [],
      domain_item_mapping = [(''A'', [1, 2, 3])], eval_domain = Some ''A''\<rparr>
     [1] [1, 2, 3] (history_of [[2, - 1]] 0) = [1, 3] \<and>
   3 \<in> set [1, 2, 3::nat] \<and> int 3 \<notin> set (history_of [[2, - 1]] 0) \<and>
   1 \<in> set [1, 2, 3::nat] \<and> int 1 \<notin> set (history_of [[2, - 1]] 0)"
proof -
  let ?self = "\<lparr>config = PDict [], ckpt_path = None, num_items = 4, embed_dim = 1,
      max_seq_len = 2, item_embedding = [[0], [1], [2], [3]], parameters = [],
      domain_item_mapping = [(''A'', [1, 2, 3])], eval_domain = Some ''A''\<rparr>"
  have dom: "eval_domain ?self = Some ''A''"
    "map_of (domain_item_mapping ?self) ''A'' = Some [1, 2, 3]" by simp_all
  have fwd: "(\<lambda>b :: batch. Inr [[1]] :: exn + real list list) Map.empty = Inr [[1]]" by simp
  have ret: "topk ?self (\<lambda>b. Inr [[1]]) Map.empty 2 (Some [[2, - 1]])
               (Inr ([[Fin 3, Fin 1]], [[3, 1]]))"
    using example_masked_score example_topk_ok by (simp add: topk_def)
  have u: "[0..<4] = [0, 1, 2, 3::nat]" by (simp add: upt_rec)
  have cand: "scored_candidates ?self [1] [1, 2, 3] (history_of [[2, - 1]] 0) = [1, 3]"
    by (simp add: scored_candidates_def candidates_def history_of_def pad_history_def u
          example_dot_small)
  have enough: "\<forall>i<length [[3, 1::nat]].
        nat 2 \<le> length (scored_candidates ?self ([[1]] ! i) [1, 2, 3] (history_of [[2, - 1]] i))"
    using cand by simp
  from topk_excludes_masked_items_when_scores_exceed_neg_inf [OF dom fwd ret enough] ret cand
  show ?thesis by simp
qed

text \<open>
  C9 as stated speaks of every batch and of every \<open>k\<close> up to the number of candidates
  that no mask covers. With the weight \<open>2^100\<close> for every item and the query \<open>-2^100\<close>,
  every float32 score overflows to \<open>-inf\<close>, the value the masks write: the candidates
  1 and 3 tie with the masked items, and with \<open>k = 1\<close> the selection of item 2, which
  is in the user's history, is a top-k selection of the row.
\<close>

lemma example_masked_score_overflow:
  assumes "f32 (q * w) = NegInf"
  shows "masked_score
     \<lparr>config = PDict [], ckpt_path = None, num_items = 4, embed_dim = 1, max_seq_len = 2,
      item_embedding = [[w], [w], [w], [w]], parameters = [],
      domain_item_mapping = [(''A'', [1, 2, 3])], eval_domain = Some ''A''\<rparr>
     [[q]] (Some [[2]])
   = Inr [[NegInf, NegInf, NegInf, NegInf]]"
proof -
  have u: "[0..<4] = [0, 1, 2, 3::nat]" by (simp add: upt_rec)
  have d: "dot [q] [w] = NegInf" using assms by (simp add: dot_def)
  show ?thesis
    by (simp add: masked_score_def has_shape2_def matmul_T_def domain_mask_def pad_history_def
          scatter_row_def u d)
qed

lemma example_topk_ok_overflow: "torch_topk_ok [NegInf, NegInf, NegInf, NegInf] 1 [2]"
proof -
  have u: "[0..<4] = [0, 1, 2, 3::nat]" "[0..<1] = [0::nat]" by (simp_all add: upt_rec)
  show ?thesis
    by (simp add: torch_topk_ok_def u)
qed

lemma example_topk_overflow:
  assumes "f32 (q * w) = NegInf"
  shows "topk \<lparr>config = PDict [], ckpt_path = None, num_items = 4, embed_dim = 1, max_seq_len = 2,
      item_embedding = [[w], [w], [w], [w]], parameters = [],
      domain_item_mapping = [(''A'', [1, 2, 3])], eval_domain = Some ''A''\<rparr>
     (\<lambda>b. Inr [[q]]) Map.empty 1 (Some [[2]]) (Inr ([[NegInf]], [[2]]))"
  using example_masked_score_overflow [OF assms] example_topk_ok_overflow
  by (simp add: topk_def)

lemma example_candidates:
  "candidates 4 [1, 2, 3] (history_of [[2]] 0) = [1, 3]"
  "nat 1 \<le> length [1, 3::nat]"
  "2 \<in> set ([[2::nat]] ! 0)"
  "int 2 \<in> set (history_of [[2]] 0)"
proof -
  have u: "[0..<4] = [0, 1, 2, 3::nat]" by (simp add: upt_rec)
  show "candidates 4 [1, 2, 3] (history_of [[2]] 0) = [1, 3]"
    by (simp add: candidates_def history_of_def pad_history_def u)
qed (simp_all add: history_of_def pad_history_def)

theorem topk_returns_history_item_counterexample:
  "topk \<lparr>config = PDict [], ckpt_path = None, num_items = 4, embed_dim = 1, max_seq_len = 2,
      item_embedding = [[2 ^ 100], [2 ^ 100], [2 ^ 100], [2 ^ 100]], parameters = [],
      domain_item_mapping = [(''A'', [1, 2, 3])], eval_domain = Some ''A''\<rparr>
     (\<lambda>b. Inr [[- (2 ^ 100)]]) Map.empty 1 (Some [[2]]) (Inr ([[NegInf]], [[2]])) \<and>
   candidates 4 [1, 2, 3] (history_of [[2]] 0) = [1, 3] \<and>
   nat 1 \<le> length [1, 3::nat] \<and>
   2 \<in> set ([[2::nat]] ! 0) \<and> int 2 \<in> set (history_of [[2]] 0)"
proof -
  have "- (2 ^ 100) * 2 ^ 100 = - (2 ^ 100 * 2 ^ 100 :: real)" by (rule mult_minus_left)
  with f32_overflows have "f32 (- (2 ^ 100) * 2 ^ 100) = NegInf" by (simp only:)
  from example_topk_overflow [OF this] example_candidates
  show ?thesis by (intro conjI)
qed

subsection \<open>Checkpoints\<close>

lemma concat_unflatten: "concat (unflatten n d xs) = take (n * d) xs"
proof (induction n)
  case 0
  then show ?case by (simp add: unflatten_def)
next
  case (Suc n)
  have "concat (unflatten (Suc n) d xs) = concat (unflatten n d xs) @ take d (drop (n * d) xs)"
    by (simp add: unflatten_def)
  also have "\<dots> = take (n * d + d) xs" by (simp add: Suc.IH take_add)
  finally show ?case by (simp add: add.commute)
qed

lemma map_of_renewed:
  "map_of (map (\<lambda>(k, t). (k, f k)) ps) k = (if k \<in> fst ` set ps then Some (f k) else None)"
  by (induction ps) auto

lemma load_state_dict_ok:
  assumes keys: "set (map fst sd) = set (map fst (state_dict self))"
    and compat: "\<forall>(k, t) \<in> set (state_dict self). \<exists>t'. map_of sd k = Some (PTensor t') \<and>
                   shape t' = shape t \<and> length (elems t') = prod_list (shape t')"
  shows "\<exists>self'. load_state_dict self (PDict sd) = Inr self' \<and> config self' = config self \<and>
           (\<forall>k. map_option PTensor (map_of (state_dict self') k) = map_of sd k)"
proof -
  let ?self' = "self\<lparr>item_embedding :=
                            unflatten (num_items self) (embed_dim self)
                              (elems (tensor_of sd ''item_embedding.weight'')),
                         parameters := map (\<lambda>(k, t). (k, tensor_of sd k)) (parameters self)\<rparr>"
  have chk: "list_all (\<lambda>(k, t). case map_of sd k of
                                          Some (PTensor t') \<Rightarrow>
                                            shape t' = shape t \<and> length (elems t') = prod_list (shape t')
                                        | _ \<Rightarrow> False) (state_dict self)"
    unfolding list_all_iff using compat by fastforce
  have ld: "load_state_dict self (PDict sd) = Inr ?self'"
    using keys chk by (simp add: load_state_dict_def)
  have stored: "map_option PTensor (map_of (state_dict ?self') k) = map_of sd k" for k
  proof (cases "k = ''item_embedding.weight''")
    case True
    from compat obtain t' where t': "map_of sd ''item_embedding.weight'' = Some (PTensor t')"
      "shape t' = [num_items self, embed_dim self]" "length (elems t') = prod_list (shape t')"
      by (auto simp: state_dict_def)
    then have "Tensor [num_items self, embed_dim self]
                 (concat (unflatten (num_items self) (embed_dim self) (elems t'))) = t'"
      by (cases t') (simp add: concat_unflatten)
    with t' True show ?thesis by (simp add: state_dict_def tensor_of_def)
  next
    case False
    show ?thesis
    proof (cases "k \<in> fst ` set (parameters self)")
      case True
      then obtain t where "(k, t) \<in> set (parameters self)" by auto
      then have "(k, t) \<in> set (state_dict self)" by (simp add: state_dict_def)
      with compat obtain t' where "map_of sd k = Some (PTensor t')" by fastforce
      with True False show ?thesis
        by (simp add: state_dict_def map_of_renewed tensor_of_def)
    next
      case notin: False
      with False have "k \<notin> set (map fst (state_dict self))" by (auto simp: state_dict_def)
      with keys have "k \<notin> fst ` set sd" by simp
      then have "map_of sd k = None" by (simp add: map_of_eq_None_iff)
      with notin False show ?thesis by (simp add: state_dict_def map_of_renewed)
    qed
  qed
  from ld stored show ?thesis by (intro exI [of _ ?self']) simp
qed

text \<open>
  C7. For a checkpoint that stores a configuration under \<open>'config'\<close> and, under
  \<open>'parameters'\<close>, a state dictionary of the model (the model's parameter names, each
  with a tensor of the parameter's shape), \<open>load_checkpoint\<close> on its path returns with
  \<open>self.config\<close> replaced by the stored configuration and with every parameter of the
  model holding the stored tensor.
\<close>

theorem load_checkpoint_restores_config_and_parameters:
  assumes ckpt_file: "files path = Some ckpt"
    and cfg: "getitem ckpt ''config'' = Inr c"
    and par: "getitem ckpt ''parameters'' = Inr (PDict sd)"
    and keys: "set (map fst sd) = set (map fst (state_dict self))"
    and compat: "\<forall>(k, t) \<in> set (state_dict self). \<exists>t'. map_of sd k = Some (PTensor t') \<and>
                   shape t' = shape t \<and> length (elems t') = prod_list (shape t')"
  shows "\<exists>self'. load_checkpoint files self path = Inr self' \<and> config self' = c \<and>
           (\<forall>k. map_option PTensor (map_of (state_dict self') k) = map_of sd k)"
proof -
  have keys': "set (map fst sd) = set (map fst (state_dict (self\<lparr>config := c\<rparr>)))"
    using keys by (simp add: state_dict_def)
  have compat': "\<forall>(k, t) \<in> set (state_dict (self\<lparr>config := c\<rparr>)). \<exists>t'. map_of sd k = Some (PTensor t') \<and>
                   shape t' = shape t \<and> length (elems t') = prod_list (shape t')"
    using compat by (simp add: state_dict_def)
  from load_state_dict_ok [OF keys' compat'] ckpt_file cfg par
  show ?thesis by (auto simp: load_checkpoint_def)
qed

theorem load_checkpoint_restores_config_and_parameters_witness:
  "load_checkpoint
     [''best.ckpt'' \<mapsto> PDict [(''config'', PDict [(''epochs'', PInt 3)]),
                               (''parameters'',
                                PDict [(''item_embedding.weight'', PTensor (Tensor [2, 1] [5, 6])),
                                       (''fc.bias'', PTensor (Tensor [1] [7]))])]]
     \<lparr>config = PDict [], ckpt_path = None, num_items = 2, embed_dim = 1, max_seq_len = 2,
      item_embedding = [[0], [0]], parameters = [(''fc.bias'', Tensor [1] [0])],
      domain_item_mapping = [], eval_domain = None\<rparr>
     ''best.ckpt''
   = Inr \<lparr>config = PDict [(''epochs'', PInt 3)], ckpt_path = None, num_items = 2, embed_dim = 1,
          max_seq_len = 2, item_embedding = [[5], [6]], parameters = [(''fc.bias'', Tensor [1] [7])],
          domain_item_mapping = [], eval_domain = None\<rparr> \<and>
   (\<exists>self'. load_checkpoint
     [''best.ckpt'' \<mapsto> PDict [(''config'', PDict [(''epochs'', PInt 3)]),
                               (''parameters'',
                                PDict [(''item_embedding.weight'', PTensor (Tensor [2, 1] [5, 6])),
                                       (''fc.bias'', PTensor (Tensor [1] [7]))])]]
     \<lparr>config = PDict [], ckpt_path = None, num_items = 2, embed_dim = 1, max_seq_len = 2,
      item_embedding = [[0], [0]], parameters = [(''fc.bias'', Tensor [1] [0])],
      domain_item_mapping = [], eval_domain = None\<rparr>
     ''best.ckpt'' = Inr self' \<and> config self' = PDict [(''epochs'', PInt 3)] \<and>
     (\<forall>k. map_option PTensor (map_of (state_dict self') k)
          = map_of [(''item_embedding.weight'', PTensor (Tensor [2, 1] [5, 6])),
                    (''fc.bias'', PTensor (Tensor [1] [7]))] k))"
proof -
  let ?sd = "[(''item_embedding.weight'', PTensor (Tensor [2, 1] [5, 6])),
              (''fc.bias'', PTensor (Tensor [1] [7]))]"
  let ?ckpt = "PDict [(''config'', PDict [(''epochs'', PInt 3)]), (''parameters'', PDict ?sd)]"
  let ?self = "\<lparr>config = PDict [], ckpt_path = None, num_items = 2, embed_dim = 1, max_seq_len = 2,
      item_embedding = [[0], [0]], parameters = [(''fc.bias'', Tensor [1] [0])],
      domain_item_mapping = [], eval_domain = None\<rparr>"
  have ckpt_file: "[''best.ckpt'' \<mapsto> ?ckpt] ''best.ckpt'' = Some ?ckpt" by simp
  have cfg: "getitem ?ckpt ''config'' = Inr (PDict [(''epochs'', PInt 3)])"
    by (simp add: getitem_def)
  have par: "getitem ?ckpt ''parameters'' = Inr (PDict ?sd)" by (simp add: getitem_def)
  have keys: "set (map fst ?sd) = set (map fst (state_dict ?self))"
    by (simp add: state_dict_def)
  have compat: "\<forall>(k, t) \<in> set (state_dict ?self). \<exists>t'. map_of ?sd k = Some (PTensor t') \<and>
                   shape t' = shape t \<and> length (elems t') = prod_list (shape t')"
    by (simp add: state_dict_def)
  have u: "[0..<2] = [0, 1::nat]" by (simp add: upt_rec)
  have run: "load_checkpoint [''best.ckpt'' \<mapsto> ?ckpt] ?self ''best.ckpt''
     = Inr \<lparr>config = PDict [(''epochs'', PInt 3)], ckpt_path = None, num_items = 2, embed_dim = 1,
          max_seq_len = 2, item_embedding = [[5], [6]], parameters = [(''fc.bias'', Tensor [1] [7])],
          domain_item_mapping = [], eval_domain = None\<rparr>"
    by (simp add: load_checkpoint_def getitem_def load_state_dict_def state_dict_def
          tensor_of_def unflatten_def u)
  from load_checkpoint_restores_config_and_parameters
         [where files = "[''best.ckpt'' \<mapsto> ?ckpt]" and path = "''best.ckpt''",
          OF ckpt_file cfg par keys compat] run
  show ?thesis by blast
qed

subsection \<open>The training loop\<close>

text \<open>
  An exception that leaves the loop carries the number of the epoch that was running.
\<close>

lemma epoch_loop_raise_bounds:
  "epoch_loop h domains remaining n s = Inl (e, nepoch, s') \<Longrightarrow> n \<le> nepoch \<and> nepoch < n + remaining"
proof (induction remaining arbitrary: n s)
  case 0
  then show ?case by simp
next
  case (Suc remaining)
  show ?case
  proof (cases "\<exists>s5. epoch_loop h domains remaining (n + 1) s5 = Inl (e, nepoch, s')")
    case True
    then obtain s5 where "epoch_loop h domains remaining (n + 1) s5 = Inl (e, nepoch, s')" by blast
    from Suc.IH [OF this] show ?thesis by simp
  next
    case False
    with Suc.prems have "nepoch = n"
      by (auto split: sum.splits prod.splits if_splits)
    then show ?thesis by simp
  qed
qed

text \<open>
  C5. If KeyboardInterrupt is raised at any point inside the training loop, by
  whichever of the methods the loop calls, \<open>fit_loop\<close> does not propagate it: provided
  the two calls on the callback return, it has saved a checkpoint for the current epoch
  (the epoch that was running, below \<open>config['epochs']\<close>), \<open>self.ckpt_path\<close> is the path the
  callback gave, and \<open>fit_loop\<close> returns normally.
\<close>

theorem fit_loop_catches_keyboard_interrupt:
  assumes start: "train_start h s = Inr s0"
    and interrupted: "epoch_loop h domains (nat epochs) 0 s0 = Inl (KeyboardInterrupt, nepoch, s1)"
    and saved: "save_checkpoint h nepoch s1 = Inr s2"
    and path: "get_checkpoint_path h s2 = Inr p"
  shows "fit_loop h domains epochs s = Inr (s2\<lparr>trainer_ckpt_path := Some p\<rparr>) \<and> int nepoch < epochs"
proof -
  have "try_block h domains epochs s = Inl (KeyboardInterrupt, nepoch, s1)"
    using start interrupted by (simp add: try_block_def)
  then have "fit_loop h domains epochs s = Inr (s2\<lparr>trainer_ckpt_path := Some p\<rparr>)"
    using saved path by (simp add: fit_loop_def)
  moreover from epoch_loop_raise_bounds [OF interrupted] have "int nepoch < epochs" by simp
  ultimately show ?thesis by simp
qed

theorem fit_loop_catches_keyboard_interrupt_witness:
  "fit_loop
     \<lparr>train_start = Inr,
      training_epoch = (\<lambda>n s. if n = 1 then Inl (KeyboardInterrupt, s) else Inr s),
      validation_domain = (\<lambda>d n. Inr),
      log_domains = Inr,
      training_epoch_end = Inr,
      callback = (\<lambda>n s. Inr (False, s)),
      training_end = Inr,
      save_checkpoint = (\<lambda>n s. Inr (s\<lparr>rest := n # rest s\<rparr>)),
      get_checkpoint_path = (\<lambda>s. Inr ''best.ckpt'')\<rparr>
     [''A'', ''B''] 3 \<lparr>trainer_ckpt_path = None, rest = []\<rparr>
   = Inr \<lparr>trainer_ckpt_path = Some ''best.ckpt'', rest = [1]\<rparr> \<and> int 1 < 3"
proof -
  let ?h = "\<lparr>train_start = Inr,
      training_epoch = (\<lambda>n s. if n = 1 then Inl (KeyboardInterrupt, s) else Inr s),
      validation_domain = (\<lambda>d n. Inr),
      log_domains = Inr,
      training_epoch_end = Inr,
      callback = (\<lambda>n s. Inr (False, s)),
      training_end = Inr,
      save_checkpoint = (\<lambda>n s. Inr (s\<lparr>rest := n # rest s\<rparr>)),
      get_checkpoint_path = (\<lambda>s. Inr ''best.ckpt'')\<rparr> :: nat list hooks"
  let ?s = "\<lparr>trainer_ckpt_path = None, rest = []\<rparr> :: nat list trainer"
  have start: "train_start ?h ?s = Inr ?s" by simp
  have interrupted: "epoch_loop ?h [''A'', ''B''] (nat 3) 0 ?s = Inl (KeyboardInterrupt, 1, ?s)"
    by (simp add: eval_nat_numeral)
  have saved: "save_checkpoint ?h 1 ?s = Inr \<lparr>trainer_ckpt_path = None, rest = [1]\<rparr>" by simp
  have path: "get_checkpoint_path ?h \<lparr>trainer_ckpt_path = None, rest = [1]\<rparr> = Inr ''best.ckpt''"
    by simp
  from fit_loop_catches_keyboard_interrupt [OF start interrupted saved path]
  show ?thesis by simp
qed

section \<open>Properties of MetaModel\<close>

subsection \<open>The shared item embedding\<close>

lemma meta_optimizer_call_keeps:
  "heap (meta_optimizer_call env l1 l2 s) = heap s"
  "sub_model (meta_optimizer_call env l1 l2 s) = sub_model s"
  "item_embedding_ref (meta_optimizer_call env l1 l2 s) = item_embedding_ref s"
  "meta_optimizer_steps (meta_optimizer_call env l1 l2 s) = meta_optimizer_steps s + 1"
  by (simp_all add: meta_optimizer_call_def)

lemma next_meta_batch_keeps:
  assumes "next_meta_batch env s = Inr (b, s1)"
  shows "heap s1 = heap s" "sub_model s1 = sub_model s"
    "item_embedding_ref s1 = item_embedding_ref s" "meta_module s1 = meta_module s"
    "meta_optimizer_steps s1 = meta_optimizer_steps s"
  using assms by (auto simp: next_meta_batch_def split: list.splits)

lemma outter_loop_keeps:
  assumes "outter_loop env s = Inr s'"
  shows "heap s' = heap s" "sub_model s' = sub_model s"
    "item_embedding_ref s' = item_embedding_ref s"
    "meta_optimizer_steps s' = meta_optimizer_steps s + 1"
proof -
  from assms obtain b s1 l1 l2 where
    nb: "next_meta_batch env s = Inr (b, s1)" and s': "s' = meta_optimizer_call env l1 l2 s1"
    by (auto simp: outter_loop_def Let_def split: sum.splits prod.splits list.splits)
  note k = next_meta_batch_keeps [OF nb]
  show "heap s' = heap s" "sub_model s' = sub_model s"
    "item_embedding_ref s' = item_embedding_ref s"
    "meta_optimizer_steps s' = meta_optimizer_steps s + 1"
    using k by (simp_all add: s' meta_optimizer_call_keeps)
qed

lemma train_batch_keeps_references:
  assumes "train_batch env nepoch b s = Inr s'"
  shows "item_embedding_ref s' = item_embedding_ref s"
    and "embedding_ref (sub_model s') = embedding_ref (sub_model s)"
proof -
  from assms obtain batch where prep: "prepare env b = Inr batch"
    by (auto simp: train_batch_def split: sum.splits)
  define m where "m = (heap s (embedding_ref (sub_model s)), model_parameters (sub_model s))"
  define loss where "loss = (if nepoch > warmup_epoch env
                      then training_step env (meta_module s) m (fst m) batch
                      else sub_training_step env m batch)"
  define m' where "m' = optimizer_step env loss m"
  define s1 where "s1 = s\<lparr>heap := (heap s)(embedding_ref (sub_model s) := fst m'),
                     sub_model := (sub_model s)\<lparr>model_parameters := snd m',
                                       optimizer_steps := optimizer_steps (sub_model s) + 1\<rparr>,
                     step_counter := step_counter s + 1\<rparr>"
  have s1: "item_embedding_ref s1 = item_embedding_ref s"
        "embedding_ref (sub_model s1) = embedding_ref (sub_model s)"
    by (simp_all add: s1_def)
  have s': "s' = s1 \<or> outter_loop env s1 = Inr s'"
    using assms prep unfolding train_batch_def Let_def s1_def m'_def loss_def m_def
    by (auto split: if_splits)
  from s' show "item_embedding_ref s' = item_embedding_ref s"
    using s1 outter_loop_keeps(3) by metis
  from s' show "embedding_ref (sub_model s') = embedding_ref (sub_model s)"
    using s1 outter_loop_keeps(2) by metis
qed

lemma train_batches_keep_references:
  "train_batches env steps s = Inr s' \<Longrightarrow>
   item_embedding_ref s' = item_embedding_ref s \<and>
   embedding_ref (sub_model s') = embedding_ref (sub_model s)"
proof (induction steps arbitrary: s)
  case Nil
  then show ?case by simp
next
  case (Cons step steps)
  obtain nepoch b where step: "step = (nepoch, b)" by (cases step)
  with Cons.prems obtain s1 where a: "train_batch env nepoch b s = Inr s1"
    "train_batches env steps s1 = Inr s'"
    by (auto split: sum.splits)
  from Cons.IH [OF a(2)] train_batch_keeps_references [OF a(1)] show ?case by simp
qed

lemma init_model_aliases:
  assumes "init_model env heap0 free0 = Inr s"
  shows "item_embedding_ref s = Some (embedding_ref (sub_model s))"
  using assms by (auto simp: init_model_def Let_def split: sum.splits prod.splits)

text \<open>
  C6. After \<open>_init_model\<close> has run, and after any sequence of training steps that follows,
  \<open>MetaModel.item_embedding\<close> is the very object that \<open>sub_model.item_embedding\<close> is:
  the two attributes hold the same reference, weights written through the sub-model are
  read through the \<open>MetaModel\<close>, and weights written through the \<open>MetaModel\<close> are read
  through the sub-model.
\<close>

theorem item_embedding_is_shared_with_sub_model:
  assumes init: "init_model env heap0 free0 = Inr s0"
    and steps: "train_batches env steps s0 = Inr s"
  shows "item_embedding_ref s = Some (embedding_ref (sub_model s)) \<and>
         (\<forall>w. read_meta (write_sub w s) = Some w) \<and>
         (\<forall>w. read_sub (write_meta w s) = w)"
proof -
  have "item_embedding_ref s = Some (embedding_ref (sub_model s))"
    using init_model_aliases [OF init] train_batches_keep_references [OF steps] by simp
  then show ?thesis
    by (simp add: read_meta_def read_sub_def write_meta_def write_sub_def)
qed

text \<open>
  A trainer after two training steps, the second of which runs the outer loop.
\<close>

theorem item_embedding_is_shared_with_sub_model_witness:
  "\<exists>s0 s.
     init_model
       (\<lparr>new_embedding = 5, new_parameters = 0, new_meta_module = 1, sub_init = Inr,
        meta_loader = [1, 2], train_loader = [3], prepare = Inr,
        training_step = (\<lambda>q m w b. q + w + b), sub_training_step = (\<lambda>m b. fst m + b),
        optimizer_step = (\<lambda>l m. (fst m - l, snd m)),
        meta_optimizer_step = (\<lambda>l1 l2 q m. q + l1 - l2),
        descent_step = 1, interval = 2, warmup_epoch = 0\<rparr> :: (int, int, int, int, int) env)
       (\<lambda>a. 0) 0 = Inr s0 \<and>
     train_batches
       (\<lparr>new_embedding = 5, new_parameters = 0, new_meta_module = 1, sub_init = Inr,
        meta_loader = [1, 2], train_loader = [3], prepare = Inr,
        training_step = (\<lambda>q m w b. q + w + b), sub_training_step = (\<lambda>m b. fst m + b),
        optimizer_step = (\<lambda>l m. (fst m - l, snd m)),
        meta_optimizer_step = (\<lambda>l1 l2 q m. q + l1 - l2),
        descent_step = 1, interval = 2, warmup_epoch = 0\<rparr> :: (int, int, int, int, int) env)
       [(1, 3), (1, 3)] s0 = Inr s \<and>
     item_embedding_ref s = Some 1 \<and> embedding_ref (sub_model s) = 1 \<and>
     optimizer_steps (sub_model s) = 2 \<and> meta_optimizer_steps s = 1 \<and>
     read_meta (write_sub 7 s) = Some 7 \<and> read_sub (write_meta 9 s) = 9"
proof -
  let ?env = "\<lparr>new_embedding = 5, new_parameters = 0, new_meta_module = 1, sub_init = Inr,
        meta_loader = [1, 2], train_loader = [3], prepare = Inr,
        training_step = (\<lambda>q m w b. q + w + b), sub_training_step = (\<lambda>m b. fst m + b),
        optimizer_step = (\<lambda>l m. (fst m - l, snd m)),
        meta_optimizer_step = (\<lambda>l1 l2 q m. q + l1 - l2),
        descent_step = 1, interval = 2, warmup_epoch = 0\<rparr> :: (int, int, int, int, int) env"
  obtain s0 where init: "init_model ?env (\<lambda>a. 0) 0 = Inr s0"
    and s0: "embedding_ref (sub_model s0) = 1" "optimizer_steps (sub_model s0) = 0"
      "meta_optimizer_steps s0 = 0" "step_counter s0 = 0" "metaloader_iter s0 = [1, 2]"
    by (simp add: init_model_def)
  obtain s1 where one: "train_batch ?env 1 3 s0 = Inr s1"
    and s1: "embedding_ref (sub_model s1) = 1" "optimizer_steps (sub_model s1) = 1"
      "meta_optimizer_steps s1 = 0" "step_counter s1 = 1" "metaloader_iter s1 = [1, 2]"
    using s0 by (simp add: train_batch_def Let_def)
  obtain s where two: "train_batch ?env 1 3 s1 = Inr s"
    and s: "optimizer_steps (sub_model s) = 2" "meta_optimizer_steps s = 1"
    using s1
    by (simp add: train_batch_def Let_def outter_loop_def proxy_after_descent_def
          next_meta_batch_def meta_optimizer_call_def)
  have steps: "train_batches ?env [(1, 3), (1, 3)] s0 = Inr s" using one two by simp
  from item_embedding_is_shared_with_sub_model [OF init steps]
    train_batches_keep_references [OF steps] s0 s init steps
  show ?thesis by (intro exI [of _ s0] exI [of _ s]) simp
qed

subsection \<open>The outer loop\<close>

text \<open>
  The loop of lines 132 to 141 applies one update for each of the first batches, as many
  as \<open>descent_step\<close> leaves from the index it starts at.
\<close>

lemma inner_loop_descends:
  assumes "\<forall>b\<in>set bs. prepare env b = Inr (ready b)"
  shows "inner_loop env q m bs batch_idx (proxy_model, steps) =
         Inr (descend env q m (map ready (take (nat (descent_step env - int batch_idx)) bs)) proxy_model,
              steps + min (length bs) (nat (descent_step env - int batch_idx)))"
  using assms
proof (induction bs arbitrary: batch_idx proxy_model steps)
  case Nil
  then show ?case by simp
next
  case (Cons b bs)
  show ?case
  proof (cases "int batch_idx \<ge> descent_step env")
    case True
    then show ?thesis by simp
  next
    case False
    then have n: "nat (descent_step env - int batch_idx) = Suc (nat (descent_step env - int (batch_idx + 1)))"
      by simp
    from Cons.prems have b: "prepare env b = Inr (ready b)"
      and bs: "\<forall>b\<in>set bs. prepare env b = Inr (ready b)" by simp_all
    show ?thesis
      using False b Cons.IH [OF bs, of "batch_idx + 1"]
      by (simp add: n Let_def del: of_nat_Suc of_nat_add)
  qed
qed

text \<open>
  C8. One call of \<open>_outter_loop\<close>, when its assertion holds and the code it calls
  returns, is one bi-level step. The proxy model starts from the parameter state \<open>m\<close>
  of the sub-model and receives exactly \<open>descent_step\<close> gradient updates, one for each
  of the first \<open>descent_step\<close> batches of the meta loader. The validation loss is
  computed on the next batch of the meta iterator with the proxy model, the training
  loss on the first batch of the train loader with the sub-model, and both are passed
  to the one step of the meta optimizer, which changes the parameters of the meta
  module only: the sub-model, with the count of the steps of its optimizer, and the
  weights of its embedding are as before.
\<close>

theorem outter_loop_is_one_bilevel_step:
  assumes low: "0 \<le> descent_step env"
    and high: "descent_step env < int (length (meta_loader env))"
    and sub_init_ok: "sub_init env (new_embedding env, new_parameters env) = Inr r"
    and ready: "\<forall>b\<in>set (meta_loader env) \<union> set (metaloader_iter s) \<union> set (train_loader env).
                  prepare env b = Inr (ready b)"
    and first: "train_loader env = bt # bts"
    and m: "m = (heap s (embedding_ref (sub_model s)), model_parameters (sub_model s))"
    and proxy: "proxy_model =
                  descend env (meta_module s) m
                    (map ready (take (nat (descent_step env)) (meta_loader env))) m"
  shows "proxy_after_descent env s = Inr (proxy_model, nat (descent_step env)) \<and>
         (\<exists>bm s1 s'.
            next_meta_batch env s = Inr (bm, s1) \<and>
            outter_loop env s = Inr s' \<and>
            s' = meta_optimizer_call env
                   (training_step env (meta_module s) m (fst proxy_model) (ready bm))
                   (training_step env (meta_module s) m (fst m) (ready bt)) s1 \<and>
            meta_optimizer_steps s' = meta_optimizer_steps s + 1 \<and>
            sub_model s' = sub_model s \<and> heap s' = heap s)"
proof -
  have all: "\<forall>b\<in>set (meta_loader env). prepare env b = Inr (ready b)" using ready by simp
  have less: "min (length (meta_loader env)) (nat (descent_step env)) = nat (descent_step env)"
    using low high by linarith
  have pad: "proxy_after_descent env s = Inr (proxy_model, nat (descent_step env))"
    using high sub_init_ok inner_loop_descends [OF all, of "meta_module s" m 0 m 0]
    by (simp add: proxy_after_descent_def m [symmetric] proxy less)
  from low high obtain b0 bs0 where ml: "meta_loader env = b0 # bs0"
    by (cases "meta_loader env") auto
  obtain bm s1 where nb: "next_meta_batch env s = Inr (bm, s1)"
    and bm: "bm \<in> set (meta_loader env) \<union> set (metaloader_iter s)"
    by (cases "metaloader_iter s") (auto simp: next_meta_batch_def ml)
  note k = next_meta_batch_keeps [OF nb]
  from bm ready have pbm: "prepare env bm = Inr (ready bm)" by blast
  from first ready have pbt: "prepare env bt = Inr (ready bt)" by simp
  let ?s' = "meta_optimizer_call env
                   (training_step env (meta_module s) m (fst proxy_model) (ready bm))
                   (training_step env (meta_module s) m (fst m) (ready bt)) s1"
  have ol: "outter_loop env s = Inr ?s'"
    using pad nb pbm pbt first k by (simp add: outter_loop_def Let_def m)
  have "meta_optimizer_steps ?s' = meta_optimizer_steps s + 1 \<and>
        sub_model ?s' = sub_model s \<and> heap ?s' = heap s"
    using k by (simp add: meta_optimizer_call_keeps)
  with pad nb ol show ?thesis by blast
qed

text \<open>
  One outer step with \<open>descent_step = 1\<close>, integers for weights, batches and losses.
\<close>

theorem outter_loop_is_one_bilevel_step_witness:
  "proxy_after_descent
     (\<lparr>new_embedding = 0, new_parameters = 0, new_meta_module = 1, sub_init = Inr,
      meta_loader = [1, 2], train_loader = [3], prepare = Inr,
      training_step = (\<lambda>q m w b. q + w + b), sub_training_step = (\<lambda>m b. fst m + b),
      optimizer_step = (\<lambda>l m. (fst m - l, snd m)),
      meta_optimizer_step = (\<lambda>l1 l2 q m. q + l1 - l2),
      descent_step = 1, interval = 2, warmup_epoch = 0\<rparr> :: (int, int, int, int, int) env)
     \<lparr>heap = (\<lambda>a. 5), next_free = 2, item_embedding_ref = Some 1,
      sub_model = \<lparr>embedding_ref = 1, model_parameters = 10, optimizer_steps = 3\<rparr>,
      meta_module = 1, meta_optimizer_steps = 0, metaloader_iter = [2], step_counter = 4\<rparr>
   = Inr ((- 2, 10 :: int), 1) \<and>
   outter_loop
     (\<lparr>new_embedding = 0, new_parameters = 0, new_meta_module = 1, sub_init = Inr,
      meta_loader = [1, 2], train_loader = [3], prepare = Inr,
      training_step = (\<lambda>q m w b. q + w + b), sub_training_step = (\<lambda>m b. fst m + b),
      optimizer_step = (\<lambda>l m. (fst m - l, snd m)),
      meta_optimizer_step = (\<lambda>l1 l2 q m. q + l1 - l2),
      descent_step = 1, interval = 2, warmup_epoch = 0\<rparr> :: (int, int, int, int, int) env)
     \<lparr>heap = (\<lambda>a. 5), next_free = 2, item_embedding_ref = Some 1,
      sub_model = \<lparr>embedding_ref = 1, model_parameters = 10, optimizer_steps = 3\<rparr>,
      meta_module = 1, meta_optimizer_steps = 0, metaloader_iter = [2], step_counter = 4\<rparr>
   = Inr \<lparr>heap = (\<lambda>a. 5 :: int), next_free = 2, item_embedding_ref = Some 1,
      sub_model = \<lparr>embedding_ref = 1, model_parameters = 10 :: int, optimizer_steps = 3\<rparr>,
      meta_module = - 7 :: int, meta_optimizer_steps = 1, metaloader_iter = [] :: int list,
      step_counter = 4\<rparr>"
proof -
  let ?env = "\<lparr>new_embedding = 0, new_parameters = 0, new_meta_module = 1, sub_init = Inr,
      meta_loader = [1, 2], train_loader = [3], prepare = Inr,
      training_step = (\<lambda>q m w b. q + w + b), sub_training_step = (\<lambda>m b. fst m + b),
      optimizer_step = (\<lambda>l m. (fst m - l, snd m)),
      meta_optimizer_step = (\<lambda>l1 l2 q m. q + l1 - l2),
      descent_step = 1, interval = 2, warmup_epoch = 0\<rparr> :: (int, int, int, int, int) env"
  let ?s = "\<lparr>heap = (\<lambda>a. 5), next_free = 2, item_embedding_ref = Some 1,
      sub_model = \<lparr>embedding_ref = 1, model_parameters = 10, optimizer_steps = 3\<rparr>,
      meta_module = 1, meta_optimizer_steps = 0, metaloader_iter = [2], step_counter = 4\<rparr>
      :: (int, int, int, int) MetaModel"
  have low: "0 \<le> descent_step ?env" by simp
  have high: "descent_step ?env < int (length (meta_loader ?env))" by simp
  have sub_init_ok: "sub_init ?env (new_embedding ?env, new_parameters ?env) = Inr (0, 0)" by simp
  have ready: "\<forall>b\<in>set (meta_loader ?env) \<union> set (metaloader_iter ?s) \<union> set (train_loader ?env).
                  prepare ?env b = Inr (id b)" by simp
  have first: "train_loader ?env = 3 # []" by simp
  have m: "(5, 10) = (heap ?s (embedding_ref (sub_model ?s)), model_parameters (sub_model ?s))"
    by simp
  have proxy: "(- 2, 10) =
                  descend ?env (meta_module ?s) (5, 10)
                    (map id (take (nat (descent_step ?env)) (meta_loader ?env))) (5, 10)"
    by simp
  have nb: "next_meta_batch ?env ?s = Inr (2, ?s\<lparr>metaloader_iter := []\<rparr>)"
    by (simp add: next_meta_batch_def)
  note inst = outter_loop_is_one_bilevel_step [OF low high sub_init_ok ready first m proxy]
  from inst have pad: "proxy_after_descent ?env ?s = Inr ((- 2, 10), nat (descent_step ?env))"
    by (rule conjunct1)
  from inst [THEN conjunct2] obtain bm s1 s' where
    nb': "next_meta_batch ?env ?s = Inr (bm, s1)"
    and ol: "outter_loop ?env ?s = Inr s'"
    and s': "s' = meta_optimizer_call ?env
                   (training_step ?env (meta_module ?s) (5, 10) (fst (- 2, 10 :: int)) (id bm))
                   (training_step ?env (meta_module ?s) (5, 10) (fst (5, 10 :: int)) (id 3)) s1"
    by blast
  from nb nb' have bm: "bm = 2" "s1 = ?s\<lparr>metaloader_iter := []\<rparr>" by simp_all
  have "s' = \<lparr>heap = (\<lambda>a. 5 :: int), next_free = 2, item_embedding_ref = Some 1,
      sub_model = \<lparr>embedding_ref = 1, model_parameters = 10 :: int, optimizer_steps = 3\<rparr>,
      meta_module = - 7 :: int, meta_optimizer_steps = 1, metaloader_iter = [] :: int list,
      step_counter = 4\<rparr>"
    unfolding s' bm by (simp add: meta_optimizer_call_def)
  with pad ol show ?thesis by simp
qed

end
